theory Spec2Isabelle
  imports Main
begin

section \<open>Errors and JavaScript values\<close>

text \<open>
  Every \<^verbatim>\<open>throw new Error(...)\<close> of the source is a constructor of \<open>error\<close>; a function
  that can throw returns \<open>error + 'a\<close> with \<open>Inl\<close> for the exception.
\<close>

datatype error =
    InvalidBounds
  | InvalidTypeCombination
  | ArrayOfOptionalStruct string
  | InvalidPredefinedTypeString
  | ValueNotOptional
  | NotDefined string string string
  | AlreadyExists string string string
  | NotSupported
  | InvalidName
  | TooManyIdenticalNames
  | AlreadyContainsName
  | DoesNotContainSource
  | RootElementNotSet
  | MultipleRootElementDefs
  | DataTypeNotSet
  | DataTypeAlreadySet
  | InvalidDataType
  | InvalidArraySize
  | Todo
  | InvalidOccurrence
  | CouldNotGetOccurrence
  | AlreadyContainsUnorderedElement string string
  | AlreadyContainsUnorderedAttribute string string
  | SmlError string
  | NullDereference
  | CouldNotParseSchema error

text \<open>
  A JavaScript \<^verbatim>\<open>number\<close> as the schema code meets it: an integer, or \<^verbatim>\<open>NaN\<close>
  (what \<^verbatim>\<open>Number.parseInt\<close> returns on text without digits). \<^verbatim>\<open>===\<close> and \<^verbatim>\<open><\<close> are
  false as soon as one side is \<^verbatim>\<open>NaN\<close>. Integers are exact here; a JavaScript number
  is exact up to \<open>2\<^sup>5\<^sup>3\<close> and rounds beyond.
\<close>

datatype number = NaN | Num int

fun strictEquals :: "number \<Rightarrow> number \<Rightarrow> bool" where
  "strictEquals (Num a) (Num b) = (a = b)"
| "strictEquals _ _ = False"

fun lessThan_num :: "number \<Rightarrow> number \<Rightarrow> bool" where
  "lessThan_num (Num a) (Num b) = (a < b)"
| "lessThan_num _ _ = False"

section \<open>SsRange\<close>

record SsRange =
  minR :: "number option"
  maxR :: "number option"

definition new_SsRange :: "number option \<Rightarrow> number option \<Rightarrow> error + SsRange" where
  "new_SsRange mn mx =
     (case (mn, mx) of
        (Some a, Some b) \<Rightarrow>
          if lessThan_num b a then Inl InvalidBounds else Inr \<lparr>minR = mn, maxR = mx\<rparr>
      | _ \<Rightarrow> Inr \<lparr>minR = mn, maxR = mx\<rparr>)"

definition isRequired :: "SsRange \<Rightarrow> bool" where
  "isRequired r =
     (case (minR r, maxR r) of
        (Some a, Some b) \<Rightarrow> strictEquals a (Num 1) \<and> strictEquals b (Num 1)
      | _ \<Rightarrow> False)"

definition isOptional :: "SsRange \<Rightarrow> bool" where
  "isOptional r =
     (case (minR r, maxR r) of
        (Some a, Some b) \<Rightarrow> strictEquals a (Num 0) \<and> strictEquals b (Num 1)
      | _ \<Rightarrow> False)"

definition isRepeatedPlus :: "SsRange \<Rightarrow> bool" where
  "isRepeatedPlus r =
     (case minR r of
        Some a \<Rightarrow> strictEquals a (Num 1) \<and> maxR r = None
      | None \<Rightarrow> False)"

definition isRepeatedStar :: "SsRange \<Rightarrow> bool" where
  "isRepeatedStar r =
     ((case minR r of Some a \<Rightarrow> strictEquals a (Num 0) | None \<Rightarrow> True) \<and> maxR r = None)"

definition isFixed :: "SsRange \<Rightarrow> bool" where
  "isFixed r =
     (case (minR r, maxR r) of
        (Some a, Some b) \<Rightarrow> strictEquals a b
      | _ \<Rightarrow> False)"

definition SsRange_required :: "error + SsRange" where
  "SsRange_required = new_SsRange (Some (Num 1)) (Some (Num 1))"

definition SsRange_optional :: "error + SsRange" where
  "SsRange_optional = new_SsRange (Some (Num 0)) (Some (Num 1))"

definition SsRange_repeatedPlus :: "error + SsRange" where
  "SsRange_repeatedPlus = new_SsRange (Some (Num 1)) None"

definition SsRange_repeatedStar :: "error + SsRange" where
  "SsRange_repeatedStar = new_SsRange None None"

definition SsRange_fixed :: "number \<Rightarrow> error + SsRange" where
  "SsRange_fixed sz = new_SsRange (Some sz) (Some sz)"

text \<open>The five derived predicates of a range, in the order of the source.\<close>

definition predicates :: "SsRange \<Rightarrow> bool list" where
  "predicates r = [isRequired r, isOptional r, isRepeatedPlus r, isRepeatedStar r, isFixed r]"

definition holding :: "SsRange \<Rightarrow> nat" where
  "holding r = length (filter id (predicates r))"

section \<open>JavaScript strings\<close>

text \<open>
  A string is a list of 8-bit characters. The case conversions change the letters
  \<open>A\<close> to \<open>Z\<close> and \<open>a\<close> to \<open>z\<close> and leave every other character alone.
\<close>

definition toLowerCase_char :: "char \<Rightarrow> char" where
  "toLowerCase_char c =
     (case map_of (zip ''ABCDEFGHIJKLMNOPQRSTUVWXYZ'' ''abcdefghijklmnopqrstuvwxyz'') c of
        Some d \<Rightarrow> d | None \<Rightarrow> c)"

definition toUpperCase_char :: "char \<Rightarrow> char" where
  "toUpperCase_char c =
     (case map_of (zip ''abcdefghijklmnopqrstuvwxyz'' ''ABCDEFGHIJKLMNOPQRSTUVWXYZ'') c of
        Some d \<Rightarrow> d | None \<Rightarrow> c)"

definition toLowerCase :: "string \<Rightarrow> string" where
  "toLowerCase s = map toLowerCase_char s"

definition toUpperCase :: "string \<Rightarrow> string" where
  "toUpperCase s = map toUpperCase_char s"

definition startsWith :: "string \<Rightarrow> string \<Rightarrow> bool" where
  "startsWith s p = (take (length p) s = p)"

definition endsWith :: "string \<Rightarrow> string \<Rightarrow> bool" where
  "endsWith s p = (length p \<le> length s \<and> drop (length s - length p) s = p)"

text \<open>\<^verbatim>\<open>s.substring(a, b)\<close>: the arguments are swapped when \<open>b < a\<close> and clamped to the length.\<close>

definition substring :: "string \<Rightarrow> nat \<Rightarrow> nat \<Rightarrow> string" where
  "substring s a b = take (max a b - min a b) (drop (min a b) s)"

definition substring_from :: "string \<Rightarrow> nat \<Rightarrow> string" where
  "substring_from s a = drop a s"

text \<open>\<^verbatim>\<open>s.indexOf(p)\<close>: \<open>None\<close> stands for the result \<open>-1\<close>.\<close>

fun indexOf :: "string \<Rightarrow> string \<Rightarrow> nat option" where
  "indexOf [] p = (if p = [] then Some 0 else None)"
| "indexOf (c # cs) p =
     (if startsWith (c # cs) p then Some 0 else map_option Suc (indexOf cs p))"

definition includes_str :: "string \<Rightarrow> string \<Rightarrow> bool" where
  "includes_str s p = (indexOf s p \<noteq> None)"

text \<open>
  \<^verbatim>\<open>s.split(sep, limit)\<close> for a non-empty separator: all the pieces between the
  occurrences of \<open>sep\<close>, read left to right, cut to the first \<open>limit\<close> pieces.
  \<open>acc\<close> holds the piece being read, reversed.
\<close>

function split_pieces :: "string \<Rightarrow> string \<Rightarrow> string \<Rightarrow> string list" where
  "split_pieces sep acc [] = [rev acc]"
| "split_pieces sep acc (c # cs) =
     (if sep \<noteq> [] \<and> startsWith (c # cs) sep
      then rev acc # split_pieces sep [] (drop (length sep) (c # cs))
      else split_pieces sep (c # acc) cs)"
  by pat_completeness auto
termination
  by (relation "measure (\<lambda>(sep, acc, s). length s)") auto

definition split :: "string \<Rightarrow> string \<Rightarrow> nat \<Rightarrow> string list" where
  "split s sep limit = take limit (split_pieces sep [] s)"

text \<open>
  \<^verbatim>\<open>Number.parseInt(s)\<close>: leading white space is skipped, a sign is read, a prefix
  \<open>0x\<close> selects radix 16, and the digits up to the first other character are the
  value; with no digit the result is \<^verbatim>\<open>NaN\<close>.
\<close>

definition isWhiteSpace :: "char \<Rightarrow> bool" where
  "isWhiteSpace c = (c \<in> set [CHR '' '', CHR 0x09, CHR 0x0A, CHR 0x0B, CHR 0x0C, CHR 0x0D, CHR 0xA0])"

definition digitValue :: "char \<Rightarrow> nat option" where
  "digitValue c = map_of (zip ''0123456789abcdef'' [0 ..< 16]) (toLowerCase_char c)"

definition isDigitOf :: "nat \<Rightarrow> char \<Rightarrow> bool" where
  "isDigitOf radix c = (case digitValue c of Some d \<Rightarrow> d < radix | None \<Rightarrow> False)"

definition digitsValue :: "nat \<Rightarrow> string \<Rightarrow> nat" where
  "digitsValue radix ds = foldl (\<lambda>a c. a * radix + (case digitValue c of Some d \<Rightarrow> d | None \<Rightarrow> 0)) 0 ds"

definition parseInt :: "string \<Rightarrow> number" where
  "parseInt s =
     (let s1 = dropWhile isWhiteSpace s;
          neg = startsWith s1 ''-'';
          s2 = (if startsWith s1 ''-'' \<or> startsWith s1 ''+'' then drop 1 s1 else s1);
          hex = (toLowerCase (take 2 s2) = ''0x'');
          radix = (if hex then 16 else 10);
          s3 = (if hex then drop 2 s2 else s2);
          ds = takeWhile (isDigitOf radix) s3
      in if ds = [] then NaN
         else Num (if neg then - int (digitsValue radix ds) else int (digitsValue radix ds)))"

text \<open>The decimal text of a number, as string concatenation (\<^verbatim>\<open>"" + n\<close>) produces it.\<close>

fun natToString :: "nat \<Rightarrow> string" where
  "natToString n =
     (if n < 10 then [''0123456789'' ! n]
      else natToString (n div 10) @ [''0123456789'' ! (n mod 10)])"

declare natToString.simps [simp del]

definition numberToString :: "number \<Rightarrow> string" where
  "numberToString x =
     (case x of
        NaN \<Rightarrow> ''NaN''
      | Num i \<Rightarrow> if i < 0 then ''-'' @ natToString (nat (- i)) else natToString (nat i))"

definition nullableNumberToString :: "number option \<Rightarrow> string" where
  "nullableNumberToString x = (case x of None \<Rightarrow> ''null'' | Some n \<Rightarrow> numberToString n)"

section \<open>SsPredefinedType\<close>

datatype SsPredefinedType =
  BoolT | IntT | UIntT | NumberT | StringT | DateT | TimeT | Base64T | DateTimeT

definition getPredefinedTypeOrNull :: "string \<Rightarrow> SsPredefinedType option" where
  "getPredefinedTypeOrNull str =
     (let s = toLowerCase str in
      if s = ''bool'' then Some BoolT
      else if s = ''int'' then Some IntT
      else if s = ''uint'' then Some UIntT
      else if s = ''number'' then Some NumberT
      else if s = ''string'' then Some StringT
      else if s = ''date'' then Some DateT
      else if s = ''time'' then Some TimeT
      else if s = ''base64'' then Some Base64T
      else if s = ''datetime'' then Some DateTimeT
      else None)"

fun getPredefinedTypeString :: "SsPredefinedType \<Rightarrow> error + string" where
  "getPredefinedTypeString BoolT = Inr ''Bool''"
| "getPredefinedTypeString IntT = Inr ''Int''"
| "getPredefinedTypeString UIntT = Inr ''UInt''"
| "getPredefinedTypeString NumberT = Inr ''Number''"
| "getPredefinedTypeString StringT = Inr ''String''"
| "getPredefinedTypeString DateT = Inr ''Date''"
| "getPredefinedTypeString TimeT = Inr ''Time''"
| "getPredefinedTypeString DateTimeT = Inr ''DateTime''"
| "getPredefinedTypeString _ = Inl InvalidPredefinedTypeString"

section \<open>Value types, structs and attribute data types\<close>

datatype SsValueTypeDef =
    SsEnumTypeDef string "string list"
  | SsStringTypeDef string
  | SsNumberTypeDef string

fun valueTypeDef_name :: "SsValueTypeDef \<Rightarrow> string" where
  "valueTypeDef_name (SsEnumTypeDef n vs) = n"
| "valueTypeDef_name (SsStringTypeDef n) = n"
| "valueTypeDef_name (SsNumberTypeDef n) = n"

record SsStructValue =
  sv_name :: string
  sv_optional :: bool
  sv_predefinedType :: "SsPredefinedType option"
  sv_valueTypeDef :: "SsValueTypeDef option"
  sv_nullable :: bool

definition getTypeString :: "SsStructValue \<Rightarrow> error + string" where
  "getTypeString v =
     (case (case sv_predefinedType v of
              Some p \<Rightarrow> getPredefinedTypeString p
            | None \<Rightarrow>
                (case sv_valueTypeDef v of
                   Some d \<Rightarrow> Inr (valueTypeDef_name d)
                 | None \<Rightarrow> Inl NullDereference)) of
        Inl e \<Rightarrow> Inl e
      | Inr typeName \<Rightarrow> Inr (if sv_nullable v then typeName @ ''?'' else typeName))"

text \<open>
  A struct definition: its name and the array \<^verbatim>\<open>_values\<close>. The backward reference to the
  owning definitions is private and never read, and is left out.
\<close>

record SsStructDef =
  sd_name :: string
  sd_values :: "SsStructValue list"

definition new_SsStructDef :: "string \<Rightarrow> SsStructDef" where
  "new_SsStructDef n = \<lparr>sd_name = n, sd_values = []\<rparr>"

definition hasOptional :: "SsStructDef \<Rightarrow> bool" where
  "hasOptional sd = (find sv_optional (sd_values sd) \<noteq> None)"

definition addValue ::
  "SsStructDef \<Rightarrow> string \<Rightarrow> bool \<Rightarrow> SsPredefinedType option \<Rightarrow> SsValueTypeDef option \<Rightarrow> bool
     \<Rightarrow> error + SsStructDef" where
  "addValue sd n optional predefinedType valueTypeDef nullable =
     (let v = \<lparr>sv_name = n, sv_optional = optional, sv_predefinedType = predefinedType,
                sv_valueTypeDef = valueTypeDef, sv_nullable = nullable\<rparr>
      in if length (sd_values sd) > 0
         then (let lastOptional = sv_optional (sd_values sd ! (length (sd_values sd) - 1))
               in if \<not> optional \<and> lastOptional then Inl ValueNotOptional
                  else Inr (sd\<lparr>sd_values := sd_values sd @ [v]\<rparr>))
         else Inr (sd\<lparr>sd_values := sd_values sd @ [v]\<rparr>))"

text \<open>
  Adding the values of a list in turn. \<open>addValues\<close> stops at the first exception, as a
  caller that does not catch it; \<open>addValues_caught\<close> is a caller that catches every
  exception and goes on (a failed \<^verbatim>\<open>addValue\<close> throws before the push and leaves the
  struct as it was).
\<close>

definition addValue_of :: "SsStructDef \<Rightarrow> SsStructValue \<Rightarrow> error + SsStructDef" where
  "addValue_of sd v =
     addValue sd (sv_name v) (sv_optional v) (sv_predefinedType v) (sv_valueTypeDef v) (sv_nullable v)"

fun addValues :: "SsStructDef \<Rightarrow> SsStructValue list \<Rightarrow> error + SsStructDef" where
  "addValues sd [] = Inr sd"
| "addValues sd (v # vs) =
     (case addValue_of sd v of Inl e \<Rightarrow> Inl e | Inr sd' \<Rightarrow> addValues sd' vs)"

fun addValues_caught :: "SsStructDef \<Rightarrow> SsStructValue list \<Rightarrow> SsStructDef" where
  "addValues_caught sd [] = sd"
| "addValues_caught sd (v # vs) =
     (case addValue_of sd v of
        Inl e \<Rightarrow> addValues_caught sd vs
      | Inr sd' \<Rightarrow> addValues_caught sd' vs)"

text \<open>The trailing-optional rule: from the first optional value on, every value is optional.\<close>

definition trailingOptional :: "SsStructValue list \<Rightarrow> bool" where
  "trailingOptional vs = list_all sv_optional (dropWhile (\<lambda>v. \<not> sv_optional v) vs)"

text \<open>
  An attribute data type. The references to a value type and to a struct are held as the
  definition referred to; the constructor reads the struct once (\<^verbatim>\<open>hasOptional\<close>) and
  \<^verbatim>\<open>toString\<close> reads the names only.
\<close>

record SsAttributeDataType =
  adt_predefinedType :: "SsPredefinedType option"
  adt_valueTypeDef :: "SsValueTypeDef option"
  adt_structDef :: "SsStructDef option"
  adt_nullable :: bool
  adt_arrayRange :: "SsRange option"
  adt_arrayNullable :: bool

definition new_SsAttributeDataType ::
  "SsPredefinedType option \<Rightarrow> SsValueTypeDef option \<Rightarrow> SsStructDef option \<Rightarrow> bool
     \<Rightarrow> SsRange option \<Rightarrow> bool \<Rightarrow> error + SsAttributeDataType" where
  "new_SsAttributeDataType predefinedType valueTypeDef structDef nullable arrayRange arrayNullable =
     (if predefinedType \<noteq> None \<and> (valueTypeDef \<noteq> None \<or> structDef \<noteq> None)
        then Inl InvalidTypeCombination
      else if valueTypeDef \<noteq> None \<and> (predefinedType \<noteq> None \<or> structDef \<noteq> None)
        then Inl InvalidTypeCombination
      else if structDef \<noteq> None \<and> (predefinedType \<noteq> None \<or> valueTypeDef \<noteq> None)
        then Inl InvalidTypeCombination
      else if structDef = None \<and> predefinedType = None \<and> valueTypeDef = None
        then Inl InvalidTypeCombination
      else if arrayRange = None \<and> arrayNullable
        then Inl InvalidTypeCombination
      else case (arrayRange, structDef) of
        (Some r, Some sd) \<Rightarrow>
          if hasOptional sd then Inl (ArrayOfOptionalStruct (sd_name sd))
          else Inr \<lparr>adt_predefinedType = predefinedType, adt_valueTypeDef = valueTypeDef,
                    adt_structDef = structDef, adt_nullable = nullable,
                    adt_arrayRange = arrayRange, adt_arrayNullable = arrayNullable\<rparr>
      | _ \<Rightarrow>
          Inr \<lparr>adt_predefinedType = predefinedType, adt_valueTypeDef = valueTypeDef,
                adt_structDef = structDef, adt_nullable = nullable,
                adt_arrayRange = arrayRange, adt_arrayNullable = arrayNullable\<rparr>)"

definition baseTypeName :: "SsAttributeDataType \<Rightarrow> error + string" where
  "baseTypeName t =
     (case adt_predefinedType t of
        Some p \<Rightarrow> getPredefinedTypeString p
      | None \<Rightarrow>
          (case adt_valueTypeDef t of
             Some d \<Rightarrow> Inr (valueTypeDef_name d)
           | None \<Rightarrow>
               (case adt_structDef t of
                  Some sd \<Rightarrow> Inr (sd_name sd)
                | None \<Rightarrow> Inl NullDereference)))"

definition arrayRangeString :: "SsRange \<Rightarrow> string" where
  "arrayRangeString r =
     (let arrayRangeStr = nullableNumberToString (minR r)
      in if \<not> isFixed r
         then arrayRangeStr @ ''..'' @ (case maxR r of None \<Rightarrow> ''N'' | Some m \<Rightarrow> numberToString m)
         else arrayRangeStr)"

definition toString :: "SsAttributeDataType \<Rightarrow> error + string" where
  "toString t =
     (case baseTypeName t of
        Inl e \<Rightarrow> Inl e
      | Inr typeName \<Rightarrow>
          (let typeName1 = (if adt_nullable t then typeName @ ''?'' else typeName);
               typeName2 = (case adt_arrayRange t of
                              Some r \<Rightarrow> typeName1 @ ''['' @ arrayRangeString r @ '']''
                            | None \<Rightarrow> typeName1)
           in Inr (if adt_arrayNullable t then typeName2 @ ''?'' else typeName2)))"

record SsAttributeDef =
  ad_name :: string
  ad_dataType :: "SsAttributeDataType option"

definition new_SsAttributeDef :: "string \<Rightarrow> SsAttributeDef" where
  "new_SsAttributeDef n = \<lparr>ad_name = n, ad_dataType = None\<rparr>"

definition dataType :: "SsAttributeDef \<Rightarrow> error + SsAttributeDataType" where
  "dataType a = (case ad_dataType a of None \<Rightarrow> Inl DataTypeNotSet | Some t \<Rightarrow> Inr t)"

definition set_dataType :: "SsAttributeDef \<Rightarrow> SsAttributeDataType \<Rightarrow> error + SsAttributeDef" where
  "set_dataType a t =
     (if ad_dataType a \<noteq> None then Inl DataTypeAlreadySet else Inr (a\<lparr>ad_dataType := Some t\<rparr>))"

section \<open>SsDefinitionList\<close>

text \<open>
  One namespace: the local map, in insertion order, and the parent namespace.
  The factory \<^verbatim>\<open>newFunction\<close>, a constructor argument in the source, is passed to
  \<open>add\<close>, its only user.
\<close>

datatype 'a SsDefinitionList =
  SsDefinitionList
    (entries: "(string \<times> 'a) list")
    (parentList: "'a SsDefinitionList option")
    (typeDescription: string)
    (selfDescription: string)

definition values_of :: "'a SsDefinitionList \<Rightarrow> 'a list" where
  "values_of l = map snd (entries l)"

fun has :: "'a SsDefinitionList \<Rightarrow> string \<Rightarrow> bool" where
  "has (SsDefinitionList m parent td sd) n =
     (if map_of m n \<noteq> None then True
      else case parent of None \<Rightarrow> False | Some p \<Rightarrow> has p n)"

fun getOrNull :: "'a SsDefinitionList \<Rightarrow> string \<Rightarrow> 'a option" where
  "getOrNull (SsDefinitionList m parent td sd) n =
     (case map_of m n of
        Some item \<Rightarrow> Some item
      | None \<Rightarrow> (case parent of None \<Rightarrow> None | Some p \<Rightarrow> getOrNull p n))"

definition get :: "'a SsDefinitionList \<Rightarrow> string \<Rightarrow> error + 'a" where
  "get l n =
     (case getOrNull l n of
        None \<Rightarrow> Inl (NotDefined (typeDescription l) n (selfDescription l))
      | Some item \<Rightarrow> Inr item)"

definition map_set :: "(string \<times> 'a) list \<Rightarrow> string \<Rightarrow> 'a \<Rightarrow> (string \<times> 'a) list" where
  "map_set m n item =
     (if map_of m n \<noteq> None then map (\<lambda>(k, v). if k = n then (k, item) else (k, v)) m
      else m @ [(n, item)])"

definition set_entries :: "'a SsDefinitionList \<Rightarrow> (string \<times> 'a) list \<Rightarrow> 'a SsDefinitionList" where
  "set_entries l m = SsDefinitionList m (parentList l) (typeDescription l) (selfDescription l)"

definition add ::
  "(string \<Rightarrow> error + 'a) \<Rightarrow> 'a SsDefinitionList \<Rightarrow> string \<Rightarrow> error + ('a \<times> 'a SsDefinitionList)" where
  "add newFunction l n =
     (if map_of (entries l) n \<noteq> None
      then Inl (AlreadyExists (typeDescription l) n (selfDescription l))
      else case newFunction n of
             Inl e \<Rightarrow> Inl e
           | Inr item \<Rightarrow> Inr (item, set_entries l (map_set (entries l) n item)))"

definition addExisting ::
  "'a SsDefinitionList \<Rightarrow> string \<Rightarrow> 'a \<Rightarrow> error + ('a \<times> 'a SsDefinitionList)" where
  "addExisting l n item =
     (if map_of (entries l) n \<noteq> None
      then Inl (AlreadyExists (typeDescription l) n (selfDescription l))
      else Inr (item, set_entries l (map_set (entries l) n item)))"

section \<open>Elements, definitions and the schema\<close>

text \<open>
  A reference to an element definition is held as the name of that definition (an element
  may refer to itself or to an enclosing element, so it cannot hold the definition), a
  reference to an attribute definition as the definition.
\<close>

record SsUnorderedElement =
  ue_elementDef :: string
  ue_occurrence :: SsRange

record SsUnorderedAttribute =
  ua_attributeDef :: SsAttributeDef
  ua_occurrence :: SsRange
  ua_inline :: bool

datatype SsElementContent =
    SsUnorderedContent
      (unorderedElementsMap: "(string \<times> SsUnorderedElement) list")
      (unorderedAttributesMap: "(string \<times> SsUnorderedAttribute) list")
  | SsOrderedContent

datatype SsElementDef =
  SsElementDef (ed_name: string) (ed_definitions: SsDefinitions) (ed_content: "SsElementContent option")
and SsDefinitions =
  SsDefinitions
    (valueTypeDefs: "SsValueTypeDef SsDefinitionList")
    (structDefs: "SsStructDef SsDefinitionList")
    (attributeDefs: "SsAttributeDef SsDefinitionList")
    (elementDefs: "SsElementDef SsDefinitionList")
    (ownerElementDef: "string option")

definition new_SsDefinitions :: "string option \<Rightarrow> SsDefinitions option \<Rightarrow> SsDefinitions" where
  "new_SsDefinitions owner parentDefinitions =
     (let selfDescription =
            (case owner of
               None \<Rightarrow> ''schema''
             | Some n \<Rightarrow> ''ElementDef '' @ [CHR 0x22] @ n @ [CHR 0x22])
      in SsDefinitions
           (SsDefinitionList [] (map_option valueTypeDefs parentDefinitions) ''ValueTypeDef'' selfDescription)
           (SsDefinitionList [] (map_option structDefs parentDefinitions) ''StructDef'' selfDescription)
           (SsDefinitionList [] (map_option attributeDefs parentDefinitions) ''AttributeDef'' selfDescription)
           (SsDefinitionList [] (map_option elementDefs parentDefinitions) ''ElementDef'' selfDescription)
           owner)"

text \<open>
  The scope of an element points to the namespaces of the enclosing scope, which hold the
  element itself. A stored element therefore keeps its scope without the parent links, and
  \<open>definitions_in parent e\<close> is the scope of \<open>e\<close> linked to the current state of the
  enclosing scope \<open>parent\<close>: what \<^verbatim>\<open>e.definitions\<close> denotes at that moment.
\<close>

definition set_parentList :: "'a SsDefinitionList option \<Rightarrow> 'a SsDefinitionList \<Rightarrow> 'a SsDefinitionList" where
  "set_parentList p l = SsDefinitionList (entries l) p (typeDescription l) (selfDescription l)"

definition link :: "SsDefinitions option \<Rightarrow> SsDefinitions \<Rightarrow> SsDefinitions" where
  "link parent d =
     SsDefinitions
       (set_parentList (map_option valueTypeDefs parent) (valueTypeDefs d))
       (set_parentList (map_option structDefs parent) (structDefs d))
       (set_parentList (map_option attributeDefs parent) (attributeDefs d))
       (set_parentList (map_option elementDefs parent) (elementDefs d))
       (ownerElementDef d)"

definition definitions_in :: "SsDefinitions \<Rightarrow> SsElementDef \<Rightarrow> SsDefinitions" where
  "definitions_in parent e = link (Some parent) (ed_definitions e)"

definition new_SsElementDef :: "string \<Rightarrow> SsElementDef" where
  "new_SsElementDef n = SsElementDef n (new_SsDefinitions (Some n) None) None"

text \<open>The four factories that \<^verbatim>\<open>SsDefinitions\<close> hands to its namespaces.\<close>

definition valueTypeDef_newFunction :: "string \<Rightarrow> error + SsValueTypeDef" where
  "valueTypeDef_newFunction n = Inl NotSupported"

definition structDef_newFunction :: "string \<Rightarrow> error + SsStructDef" where
  "structDef_newFunction n = Inr (new_SsStructDef n)"

definition attributeDef_newFunction :: "string \<Rightarrow> error + SsAttributeDef" where
  "attributeDef_newFunction n = Inr (new_SsAttributeDef n)"

definition elementDef_newFunction :: "string \<Rightarrow> error + SsElementDef" where
  "elementDef_newFunction n = Inr (new_SsElementDef n)"

definition set_valueTypeDefs :: "SsDefinitions \<Rightarrow> SsValueTypeDef SsDefinitionList \<Rightarrow> SsDefinitions" where
  "set_valueTypeDefs d l =
     SsDefinitions l (structDefs d) (attributeDefs d) (elementDefs d) (ownerElementDef d)"

definition set_structDefs :: "SsDefinitions \<Rightarrow> SsStructDef SsDefinitionList \<Rightarrow> SsDefinitions" where
  "set_structDefs d l =
     SsDefinitions (valueTypeDefs d) l (attributeDefs d) (elementDefs d) (ownerElementDef d)"

definition set_attributeDefs :: "SsDefinitions \<Rightarrow> SsAttributeDef SsDefinitionList \<Rightarrow> SsDefinitions" where
  "set_attributeDefs d l =
     SsDefinitions (valueTypeDefs d) (structDefs d) l (elementDefs d) (ownerElementDef d)"

definition set_elementDefs :: "SsDefinitions \<Rightarrow> SsElementDef SsDefinitionList \<Rightarrow> SsDefinitions" where
  "set_elementDefs d l =
     SsDefinitions (valueTypeDefs d) (structDefs d) (attributeDefs d) l (ownerElementDef d)"

definition addEnum :: "SsDefinitions \<Rightarrow> string \<Rightarrow> string list \<Rightarrow> error + SsDefinitions" where
  "addEnum d n vs =
     (let enumTypeDef = SsEnumTypeDef n vs
      in case addExisting (valueTypeDefs d) n enumTypeDef of
           Inl e \<Rightarrow> Inl e
         | Inr (item, l) \<Rightarrow> Inr (set_valueTypeDefs d l))"

definition setUnorderedContent :: "SsElementDef \<Rightarrow> SsElementDef" where
  "setUnorderedContent e =
     SsElementDef (ed_name e) (ed_definitions e) (Some (SsUnorderedContent [] []))"

text \<open>
  The three insertions of \<^verbatim>\<open>SsUnorderedContent\<close>. \<open>owner\<close> is the name of the element
  the content belongs to and \<open>d\<close> the linked scope of that element
  (\<^verbatim>\<open>this.elementDef.definitions\<close>).
\<close>

definition addElement ::
  "string \<Rightarrow> SsDefinitions \<Rightarrow> SsElementContent \<Rightarrow> string \<Rightarrow> SsRange \<Rightarrow> error + SsElementContent" where
  "addElement owner d c elementName occurrence =
     (case c of
        SsOrderedContent \<Rightarrow> Inl NullDereference
      | SsUnorderedContent es ats \<Rightarrow>
          if map_of es elementName \<noteq> None
          then Inl (AlreadyContainsUnorderedElement owner elementName)
          else (case get (elementDefs d) elementName of
                  Inl e \<Rightarrow> Inl e
                | Inr childElementDef \<Rightarrow>
                    Inr (SsUnorderedContent
                           (map_set es elementName
                              \<lparr>ue_elementDef = ed_name childElementDef, ue_occurrence = occurrence\<rparr>)
                           ats)))"

definition addAttribute ::
  "string \<Rightarrow> SsDefinitions \<Rightarrow> SsElementContent \<Rightarrow> string \<Rightarrow> SsRange \<Rightarrow> error + SsElementContent" where
  "addAttribute owner d c attributeName occurrence =
     (case c of
        SsOrderedContent \<Rightarrow> Inl NullDereference
      | SsUnorderedContent es ats \<Rightarrow>
          if map_of ats attributeName \<noteq> None
          then Inl (AlreadyContainsUnorderedAttribute owner attributeName)
          else (case get (attributeDefs d) attributeName of
                  Inl e \<Rightarrow> Inl e
                | Inr childAttributeDef \<Rightarrow>
                    Inr (SsUnorderedContent es
                           (map_set ats attributeName
                              \<lparr>ua_attributeDef = childAttributeDef, ua_occurrence = occurrence,
                                ua_inline = False\<rparr>))))"

definition addInlineAttribute ::
  "string \<Rightarrow> SsElementContent \<Rightarrow> SsAttributeDef \<Rightarrow> SsRange \<Rightarrow> error + SsElementContent" where
  "addInlineAttribute owner c inlineAttributeDef occurrence =
     (case c of
        SsOrderedContent \<Rightarrow> Inl NullDereference
      | SsUnorderedContent es ats \<Rightarrow>
          if map_of ats (ad_name inlineAttributeDef) \<noteq> None
          then Inl (AlreadyContainsUnorderedAttribute owner (ad_name inlineAttributeDef))
          else Inr (SsUnorderedContent es
                      (map_set ats (ad_name inlineAttributeDef)
                         \<lparr>ua_attributeDef = inlineAttributeDef, ua_occurrence = occurrence,
                           ua_inline = True\<rparr>)))"

text \<open>
  What a variable that is declared \<^verbatim>\<open>T | null\<close> can hold at run time: \<^verbatim>\<open>null\<close>, an object,
  or \<^verbatim>\<open>undefined\<close>, the result of reading an array beyond its end.
\<close>

datatype 'a jsref = Null | Undefined | Ref 'a

definition at_index :: "'a list \<Rightarrow> nat \<Rightarrow> 'a jsref" where
  "at_index xs i = (if i < length xs then Ref (xs ! i) else Undefined)"

record SmlSchema =
  sch_definitions :: SsDefinitions
  sch_rootElement :: "string jsref"

definition new_SmlSchema :: SmlSchema where
  "new_SmlSchema = \<lparr>sch_definitions = new_SsDefinitions None None, sch_rootElement = Null\<rparr>"

definition getRootElement :: "SmlSchema \<Rightarrow> error + string jsref" where
  "getRootElement s =
     (if sch_rootElement s = Null then Inl RootElementNotSet else Inr (sch_rootElement s))"

definition setRootElementByName :: "SmlSchema \<Rightarrow> string \<Rightarrow> error + SmlSchema" where
  "setRootElementByName s n =
     (case get (elementDefs (sch_definitions s)) n of
        Inl e \<Rightarrow> Inl e
      | Inr item \<Rightarrow> Inr (s\<lparr>sch_rootElement := Ref (ed_name item)\<rparr>))"

definition setRootElementDefault :: "SmlSchema \<Rightarrow> error + SmlSchema" where
  "setRootElementDefault s =
     (if length (values_of (elementDefs (sch_definitions s))) > 1 then Inl MultipleRootElementDefs
      else Inr (s\<lparr>sch_rootElement :=
                   (case at_index (values_of (elementDefs (sch_definitions s))) 0 of
                      Ref item \<Rightarrow> Ref (ed_name item)
                    | Undefined \<Rightarrow> Undefined
                    | Null \<Rightarrow> Null)\<rparr>))"

section \<open>TsLookup: the name allocator\<close>

definition keywords_list :: "string list" where
  "keywords_list = [''public'', ''internal'']"

definition getIdentifier :: "string \<Rightarrow> bool \<Rightarrow> string" where
  "getIdentifier str startUpperCase =
     (let firstChar = substring str 0 1;
          str1 = (if startUpperCase then toUpperCase firstChar else toLowerCase firstChar)
                   @ substring_from str 1
      in if str1 \<in> set keywords_list then ''_'' @ str1 else str1)"

text \<open>
  The allocator: the array of the names given out and the two maps keyed by the source
  object (\<open>'s\<close>), to its name and to the construct generated for it (\<open>'m\<close>).
\<close>

record ('s, 'm) TsLookup =
  names :: "string list"
  nameLookup :: "'s \<Rightarrow> string option"
  lookup :: "'s \<Rightarrow> 'm option"
  startUpperCase :: bool

definition new_TsLookup :: "bool \<Rightarrow> ('s, 'm) TsLookup" where
  "new_TsLookup up =
     \<lparr>names = [], nameLookup = (\<lambda>x. None), lookup = (\<lambda>x. None), startUpperCase = up\<rparr>"

function generateName_loop :: "string list \<Rightarrow> string \<Rightarrow> nat \<Rightarrow> error + string" where
  "generateName_loop ns name i =
     (if i < 100
      then (let newName = name @ natToString i
            in if newName \<notin> set ns then Inr newName else generateName_loop ns name (i + 1))
      else Inl TooManyIdenticalNames)"
  by pat_completeness auto
termination
  by (relation "measure (\<lambda>(ns, name, i). 100 - i)") auto

declare generateName_loop.simps [simp del]

definition generateName :: "('s, 'm) TsLookup \<Rightarrow> string \<Rightarrow> error + string" where
  "generateName lk name =
     (if length name = 0 then Inl InvalidName
      else (let name1 = getIdentifier name (startUpperCase lk)
            in if name1 \<notin> set (names lk) then Inr name1
               else generateName_loop (names lk) name1 2))"

definition TsLookup_add ::
  "('s, 'm) TsLookup \<Rightarrow> 's \<Rightarrow> string \<Rightarrow> 'm \<Rightarrow> error + ('s, 'm) TsLookup" where
  "TsLookup_add lk source name mapped =
     (if name \<in> set (names lk) then Inl AlreadyContainsName
      else Inr (lk\<lparr>nameLookup := (nameLookup lk)(source \<mapsto> name),
                   lookup := (lookup lk)(source \<mapsto> mapped),
                   names := names lk @ [name]\<rparr>))"

definition TsLookup_get :: "('s, 'm) TsLookup \<Rightarrow> 's \<Rightarrow> error + 'm" where
  "TsLookup_get lk source =
     (case lookup lk source of None \<Rightarrow> Inl DoesNotContainSource | Some m \<Rightarrow> Inr m)"

definition getName :: "('s, 'm) TsLookup \<Rightarrow> 's \<Rightarrow> error + string" where
  "getName lk source =
     (case nameLookup lk source of None \<Rightarrow> Inl DoesNotContainSource | Some n \<Rightarrow> Inr n)"

text \<open>
  One allocation, as the code generator performs it for every entity: \<^verbatim>\<open>generateName\<close>
  and then \<^verbatim>\<open>add\<close> under the name returned. \<open>allocations\<close> allocates the same base name
  for each source of a list and returns the names in the order they were given out.
\<close>

definition allocate ::
  "('s, 'm) TsLookup \<Rightarrow> string \<Rightarrow> 's \<Rightarrow> 'm \<Rightarrow> error + (string \<times> ('s, 'm) TsLookup)" where
  "allocate lk base source mapped =
     (case generateName lk base of
        Inl e \<Rightarrow> Inl e
      | Inr name \<Rightarrow>
          (case TsLookup_add lk source name mapped of
             Inl e \<Rightarrow> Inl e
           | Inr lk1 \<Rightarrow> Inr (name, lk1)))"

fun allocations ::
  "('s, 'm) TsLookup \<Rightarrow> string \<Rightarrow> ('s \<times> 'm) list \<Rightarrow> error + (string list \<times> ('s, 'm) TsLookup)" where
  "allocations lk base [] = Inr ([], lk)"
| "allocations lk base ((source, mapped) # rest) =
     (case allocate lk base source mapped of
        Inl e \<Rightarrow> Inl e
      | Inr (name, lk1) \<Rightarrow>
          (case allocations lk1 base rest of
             Inl e \<Rightarrow> Inl e
           | Inr (ns, lk2) \<Rightarrow> Inr (name # ns, lk2)))"

text \<open>The names a fresh allocator gives out for one base name: the name, then suffixes 2 to 99.\<close>

definition candidates :: "string \<Rightarrow> string list" where
  "candidates name = name # map (\<lambda>i. name @ natToString i) [2 ..< 100]"

section \<open>Arrays as objects: the \<^verbatim>\<open>values\<close> accessors\<close>

text \<open>
  Where aliasing matters an array is an object on a heap: the heap is the list of the
  arrays allocated so far and an address is an index into it. \<open>alloc\<close> creates an array,
  \<open>h[a := ys]\<close> is the heap after any mutation of the array at \<open>a\<close> (\<^verbatim>\<open>push\<close>, \<^verbatim>\<open>pop\<close>,
  \<^verbatim>\<open>splice\<close>, \<^verbatim>\<open>sort\<close>, an assignment to an index or to \<^verbatim>\<open>length\<close>): its elements
  are then \<open>ys\<close> and no other array has changed.
\<close>

type_synonym 'a heap = "'a list list"

definition alloc :: "'a heap \<Rightarrow> 'a list \<Rightarrow> nat \<times> 'a heap" where
  "alloc h xs = (length h, h @ [xs])"

text \<open>
  An enum type definition and a struct definition as objects: the name and the address of
  the private array \<^verbatim>\<open>_values\<close>. The accessor \<^verbatim>\<open>values\<close> evaluates
  \<^verbatim>\<open>[...this._values]\<close>: it allocates an array with the same elements and returns its address.
\<close>

record SsEnumTypeDef_obj =
  eo_name :: string
  eo_values :: nat

record SsStructDef_obj =
  so_name :: string
  so_values :: nat

definition SsEnumTypeDef_values :: "string heap \<Rightarrow> SsEnumTypeDef_obj \<Rightarrow> nat \<times> string heap" where
  "SsEnumTypeDef_values h d = alloc h (h ! eo_values d)"

definition SsStructDef_values ::
  "SsStructValue heap \<Rightarrow> SsStructDef_obj \<Rightarrow> nat \<times> SsStructValue heap" where
  "SsStructDef_values h d = alloc h (h ! so_values d)"

definition structDef_of :: "SsStructValue heap \<Rightarrow> SsStructDef_obj \<Rightarrow> SsStructDef" where
  "structDef_of h d = \<lparr>sd_name = so_name d, sd_values = h ! so_values d\<rparr>"

definition SsStructDef_hasOptional :: "SsStructValue heap \<Rightarrow> SsStructDef_obj \<Rightarrow> bool" where
  "SsStructDef_hasOptional h d = hasOptional (structDef_of h d)"

section \<open>The document tree\<close>

text \<open>
  The schema loader reads, and the serializer builds, a tree of named elements that hold
  elements and named attributes with a list of values. The tree and its operations belong
  to \<^verbatim>\<open>sml.js\<close>, a file of the repository that the sources at hand do not contain. Each
  of them is modelled from the contract that the specification states for the node tree,
  with names compared as they are written.
\<close>

text \<open>
  Modelled from the spec: the class \<^verbatim>\<open>SmlAttribute\<close> of \<^verbatim>\<open>sml.js\<close>, a named attribute with
  its values.
\<close>

record SmlAttribute =
  at_name :: string
  at_values :: "string list"

text \<open>
  Modelled from the spec: the class \<^verbatim>\<open>SmlElement\<close> of \<^verbatim>\<open>sml.js\<close>, a named node with its
  child nodes, elements and attributes, in document order.
\<close>

datatype SmlElement = SmlElement (el_name: string) (nodes: "SmlNode list")
and SmlNode = ElementNode SmlElement | AttributeNode SmlAttribute

text \<open>
  Modelled from the spec: \<^verbatim>\<open>elements()\<close> of \<^verbatim>\<open>sml.js\<close>, the child elements of an element in
  document order (iterate-children).
\<close>

fun all_elements :: "SmlNode list \<Rightarrow> SmlElement list" where
  "all_elements [] = []"
| "all_elements (ElementNode e # ns) = e # all_elements ns"
| "all_elements (AttributeNode a # ns) = all_elements ns"

text \<open>
  Modelled from the spec: \<^verbatim>\<open>attributes()\<close> of \<^verbatim>\<open>sml.js\<close>, the attributes of an element in
  document order (iterate-attributes).
\<close>

fun all_attributes :: "SmlNode list \<Rightarrow> SmlAttribute list" where
  "all_attributes [] = []"
| "all_attributes (ElementNode e # ns) = all_attributes ns"
| "all_attributes (AttributeNode a # ns) = a # all_attributes ns"

text \<open>
  Modelled from the spec: \<^verbatim>\<open>elements(name)\<close> of \<^verbatim>\<open>sml.js\<close>, the child elements that carry
  the name (iterate-children(name)).
\<close>

definition elements :: "SmlElement \<Rightarrow> string \<Rightarrow> SmlElement list" where
  "elements e n = filter (\<lambda>c. el_name c = n) (all_elements (nodes e))"

text \<open>
  Modelled from the spec: \<^verbatim>\<open>attributes(name)\<close> of \<^verbatim>\<open>sml.js\<close>, the attributes that carry the
  name (iterate-attributes(name)).
\<close>

definition attributes :: "SmlElement \<Rightarrow> string \<Rightarrow> SmlAttribute list" where
  "attributes e n = filter (\<lambda>a. at_name a = n) (all_attributes (nodes e))"

text \<open>
  Modelled from the spec: \<^verbatim>\<open>hasElement(name)\<close> of \<^verbatim>\<open>sml.js\<close>, whether a child element
  carries the name.
\<close>

definition hasElement :: "SmlElement \<Rightarrow> string \<Rightarrow> bool" where
  "hasElement e n = (elements e n \<noteq> [])"

text \<open>
  Modelled from the spec: \<^verbatim>\<open>assureName\<close> of \<^verbatim>\<open>sml.js\<close> (assert-node-name), which fails
  unless the element has the name.
\<close>

definition assureName :: "SmlElement \<Rightarrow> string \<Rightarrow> error + unit" where
  "assureName e n = (if el_name e = n then Inr () else Inl (SmlError ''element name''))"

text \<open>
  Modelled from the spec: \<^verbatim>\<open>assureElementNames\<close> of \<^verbatim>\<open>sml.js\<close>, which fails when a child
  element has a name that is not among the permitted ones; any order and any count of
  the permitted ones pass.
\<close>

definition assureElementNames :: "SmlElement \<Rightarrow> string list \<Rightarrow> error + unit" where
  "assureElementNames e ns =
     (if list_all (\<lambda>c. el_name c \<in> set ns) (all_elements (nodes e)) then Inr ()
      else Inl (SmlError ''not allowed element''))"

text \<open>
  Modelled from the spec: \<^verbatim>\<open>assureAttributeNames\<close> of \<^verbatim>\<open>sml.js\<close>, which fails when an
  attribute has a name that is not among the permitted ones.
\<close>

definition assureAttributeNames :: "SmlElement \<Rightarrow> string list \<Rightarrow> error + unit" where
  "assureAttributeNames e ns =
     (if list_all (\<lambda>a. at_name a \<in> set ns) (all_attributes (nodes e)) then Inr ()
      else Inl (SmlError ''not allowed attribute''))"

text \<open>
  Modelled from the spec: \<^verbatim>\<open>assureNoElements\<close> of \<^verbatim>\<open>sml.js\<close> (assert-no-children), which
  fails when the element has a child element.
\<close>

definition assureNoElements :: "SmlElement \<Rightarrow> error + unit" where
  "assureNoElements e =
     (if all_elements (nodes e) = [] then Inr () else Inl (SmlError ''no elements allowed''))"

text \<open>
  Modelled from the spec: \<^verbatim>\<open>assureNoAttributes\<close> of \<^verbatim>\<open>sml.js\<close> (assert-no-attributes),
  which fails when the element has an attribute.
\<close>

definition assureNoAttributes :: "SmlElement \<Rightarrow> error + unit" where
  "assureNoAttributes e =
     (if all_attributes (nodes e) = [] then Inr () else Inl (SmlError ''no attributes allowed''))"

text \<open>
  Modelled from the spec: \<^verbatim>\<open>optionalElement\<close> of \<^verbatim>\<open>sml.js\<close> (fetch-optional-child): the
  one child element of the name, \<^verbatim>\<open>null\<close> when there is none, a failure when there are
  several.
\<close>

definition optionalElement :: "SmlElement \<Rightarrow> string \<Rightarrow> error + SmlElement option" where
  "optionalElement e n =
     (case elements e n of
        [] \<Rightarrow> Inr None
      | [c] \<Rightarrow> Inr (Some c)
      | _ \<Rightarrow> Inl (SmlError ''more than one element''))"

text \<open>
  Modelled from the spec: \<^verbatim>\<open>optionalAttribute\<close> of \<^verbatim>\<open>sml.js\<close> (fetch-optional-attribute):
  the one attribute of the name, \<^verbatim>\<open>null\<close> when there is none, a failure when there are
  several.
\<close>

definition optionalAttribute :: "SmlElement \<Rightarrow> string \<Rightarrow> error + SmlAttribute option" where
  "optionalAttribute e n =
     (case attributes e n of
        [] \<Rightarrow> Inr None
      | [a] \<Rightarrow> Inr (Some a)
      | _ \<Rightarrow> Inl (SmlError ''more than one attribute''))"

text \<open>
  Modelled from the spec: \<^verbatim>\<open>requiredAttribute\<close> of \<^verbatim>\<open>sml.js\<close> (fetch-required-attribute):
  the one attribute of the name, a failure when there is none or several.
\<close>

definition requiredAttribute :: "SmlElement \<Rightarrow> string \<Rightarrow> error + SmlAttribute" where
  "requiredAttribute e n =
     (case attributes e n of
        [a] \<Rightarrow> Inr a
      | _ \<Rightarrow> Inl (SmlError ''not exactly one attribute''))"

text \<open>
  Modelled from the spec: \<^verbatim>\<open>assureChoice\<close> of \<^verbatim>\<open>sml.js\<close>, as the loader calls it on an
  element definition: exactly one of the content kinds named is required.
\<close>

definition assureChoice :: "SmlElement \<Rightarrow> string list \<Rightarrow> error + unit" where
  "assureChoice e ns =
     (if length (filter (\<lambda>c. el_name c \<in> set ns) (all_elements (nodes e))) = 1 then Inr ()
      else Inl (SmlError ''choice''))"

text \<open>Modelled from the spec: \<^verbatim>\<open>valueCount\<close> of an attribute in \<^verbatim>\<open>sml.js\<close> (value-count).\<close>

definition valueCount :: "SmlAttribute \<Rightarrow> nat" where
  "valueCount a = length (at_values a)"

text \<open>
  Modelled from the spec: \<^verbatim>\<open>assureValueCount\<close> of \<^verbatim>\<open>sml.js\<close> (assert-exact-value-count).
\<close>

definition assureValueCount :: "SmlAttribute \<Rightarrow> nat \<Rightarrow> error + unit" where
  "assureValueCount a n =
     (if valueCount a = n then Inr () else Inl (SmlError ''value count''))"

text \<open>
  Modelled from the spec: \<^verbatim>\<open>assureValueCountMinMax\<close> of \<^verbatim>\<open>sml.js\<close>
  (assert-value-count-range).
\<close>

definition assureValueCountMinMax :: "SmlAttribute \<Rightarrow> nat \<Rightarrow> nat \<Rightarrow> error + unit" where
  "assureValueCountMinMax a lo hi =
     (if lo \<le> valueCount a \<and> valueCount a \<le> hi then Inr () else Inl (SmlError ''value count''))"

text \<open>
  Modelled from the spec: \<^verbatim>\<open>getString(i)\<close> of \<^verbatim>\<open>sml.js\<close> (get-string), the value at a
  position, a failure when the attribute has no such value.
\<close>

definition getString :: "SmlAttribute \<Rightarrow> nat \<Rightarrow> error + string" where
  "getString a i =
     (if i < valueCount a then Inr (at_values a ! i) else Inl (SmlError ''value index''))"

text \<open>
  Modelled from the spec: the search of \<^verbatim>\<open>getEnum\<close> in \<^verbatim>\<open>sml.js\<close>, the first position of a
  value among the allowed labels.
\<close>

fun index_of :: "string list \<Rightarrow> string \<Rightarrow> nat option" where
  "index_of [] v = None"
| "index_of (x # xs) v = (if x = v then Some 0 else map_option Suc (index_of xs v))"

text \<open>
  Modelled from the spec: \<^verbatim>\<open>getEnum(labels, i)\<close> of \<^verbatim>\<open>sml.js\<close> (get-enum-index), the position
  among the allowed labels of the value at a position, a failure when the value is not
  one of the labels.
\<close>

definition getEnum :: "SmlAttribute \<Rightarrow> string list \<Rightarrow> nat \<Rightarrow> error + nat" where
  "getEnum a labels i =
     (case getString a i of
        Inl e \<Rightarrow> Inl e
      | Inr v \<Rightarrow>
          (case index_of labels v of
             None \<Rightarrow> Inl (SmlError ''enum value'')
           | Some k \<Rightarrow> Inr k))"

text \<open>
  Modelled from the spec: \<^verbatim>\<open>asString\<close> of \<^verbatim>\<open>sml.js\<close>, the value of an attribute that has
  exactly one value.
\<close>

definition asString :: "SmlAttribute \<Rightarrow> error + string" where
  "asString a =
     (case assureValueCount a 1 of Inl e \<Rightarrow> Inl e | Inr u \<Rightarrow> getString a 0)"

text \<open>
  Modelled from the spec: \<^verbatim>\<open>asStringArray\<close> of \<^verbatim>\<open>sml.js\<close> (get-string-list), the values of
  an attribute.
\<close>

definition asStringArray :: "SmlAttribute \<Rightarrow> error + string list" where
  "asStringArray a = Inr (at_values a)"

text \<open>
  Modelled from the spec: \<^verbatim>\<open>addElement\<close> of \<^verbatim>\<open>sml.js\<close>, with which the serializer builds a
  tree: the element becomes the last node of its parent.
\<close>

definition sml_addElement :: "SmlElement \<Rightarrow> SmlElement \<Rightarrow> SmlElement" where
  "sml_addElement e c = SmlElement (el_name e) (nodes e @ [ElementNode c])"

text \<open>
  Modelled from the spec: \<^verbatim>\<open>addAttribute\<close> of \<^verbatim>\<open>sml.js\<close>: the attribute becomes the last
  node of the element.
\<close>

definition sml_addAttribute :: "SmlElement \<Rightarrow> string \<Rightarrow> string list \<Rightarrow> SmlElement" where
  "sml_addAttribute e n vs =
     SmlElement (el_name e) (nodes e @ [AttributeNode \<lparr>at_name = n, at_values = vs\<rparr>])"

section \<open>SmlSchemaLoader\<close>

definition getOccurrence :: "SmlAttribute \<Rightarrow> nat \<Rightarrow> error + SsRange" where
  "getOccurrence sAttribute index =
     (case getEnum sAttribute [''Required'', ''Optional'', ''Repeated+'', ''Repeated*''] index of
        Inl e \<Rightarrow> Inl e
      | Inr occurrenceIndex \<Rightarrow>
          if occurrenceIndex = 0 then SsRange_required
          else if occurrenceIndex = 1 then SsRange_optional
          else if occurrenceIndex = 2 then SsRange_repeatedPlus
          else if occurrenceIndex = 3 then SsRange_repeatedStar
          else Inl CouldNotGetOccurrence)"

text \<open>
  The array bounds of \<^verbatim>\<open>loadDataType\<close>: the range that the text between the brackets
  stands for. Reading a piece that \<^verbatim>\<open>split\<close> did not return is a \<^verbatim>\<open>TypeError\<close>.
\<close>

definition loadArrayBounds :: "string \<Rightarrow> error + SsRange" where
  "loadArrayBounds arrayBoundsStr =
     (if includes_str arrayBoundsStr ''..''
      then (let parts = split arrayBoundsStr ''..'' 2
            in case (at_index parts 0, at_index parts 1) of
                 (Ref part0, Ref part1) \<Rightarrow>
                   (let minSize = parseInt part0;
                        maxSize = (if toUpperCase part1 \<noteq> ''N'' then Some (parseInt part1) else None)
                    in new_SsRange (Some minSize) maxSize)
               | _ \<Rightarrow> Inl NullDereference)
      else (let fixedSize = parseInt arrayBoundsStr
            in if lessThan_num fixedSize (Num 0) then Inl InvalidArraySize
               else SsRange_fixed fixedSize))"

text \<open>
  The first two steps of \<^verbatim>\<open>loadDataType\<close>: the mark of a nullable array and the array
  bounds are taken off the end of the text. The result is the text that remains, the
  bounds and the mark.
\<close>

definition stripArray :: "string \<Rightarrow> error + (string \<times> SsRange option \<times> bool)" where
  "stripArray dataTypeStr =
     (let arrayNullable = endsWith dataTypeStr '']?'';
          s1 = (if arrayNullable then substring dataTypeStr 0 (length dataTypeStr - 1)
                else dataTypeStr)
      in if endsWith s1 '']''
         then (case indexOf s1 ''['' of
                 None \<Rightarrow> Inl InvalidDataType
               | Some splitIndex \<Rightarrow>
                   (case loadArrayBounds (substring s1 (splitIndex + 1) (length s1 - 1)) of
                      Inl e \<Rightarrow> Inl e
                    | Inr arrayBounds \<Rightarrow>
                        Inr (substring s1 0 splitIndex, Some arrayBounds, arrayNullable)))
         else Inr (s1, None, arrayNullable))"

text \<open>
  The last steps of \<^verbatim>\<open>loadDataType\<close>: the mark of a nullable base type is taken off the
  end of what remains, the name is resolved (a predefined type, then a value type, then a
  struct) and the data type is constructed.
\<close>

definition loadBaseType ::
  "string \<Rightarrow> SsDefinitions \<Rightarrow> SsRange option \<Rightarrow> bool \<Rightarrow> error + SsAttributeDataType" where
  "loadBaseType s2 definitions arrayBounds arrayNullable =
     (let nullable = endsWith s2 ''?'';
          s3 = (if nullable then substring s2 0 (length s2 - 1) else s2);
          predefinedType = getPredefinedTypeOrNull s3;
          valueTypeDef = (if predefinedType = None
                          then getOrNull (valueTypeDefs definitions) s3 else None)
      in case (if predefinedType = None \<and> valueTypeDef = None
               then (case get (structDefs definitions) s3 of
                       Inl e \<Rightarrow> Inl e
                     | Inr sd \<Rightarrow> Inr (Some sd))
               else Inr None) of
           Inl e \<Rightarrow> Inl e
         | Inr structDef \<Rightarrow>
             new_SsAttributeDataType predefinedType valueTypeDef structDef nullable
               arrayBounds arrayNullable)"

definition loadDataType :: "string \<Rightarrow> SsDefinitions \<Rightarrow> error + SsAttributeDataType" where
  "loadDataType dataTypeStr definitions =
     (case stripArray dataTypeStr of
        Inl e \<Rightarrow> Inl e
      | Inr (s2, arrayBounds, arrayNullable) \<Rightarrow>
          loadBaseType s2 definitions arrayBounds arrayNullable)"

definition loadStructValue ::
  "SmlAttribute \<Rightarrow> SsStructDef \<Rightarrow> SsDefinitions \<Rightarrow> error + SsStructDef" where
  "loadStructValue sValueAttribute structDef definitions =
     (case assureValueCount sValueAttribute 3 of
        Inl e \<Rightarrow> Inl e
      | Inr u \<Rightarrow>
     (case getString sValueAttribute 0 of
        Inl e \<Rightarrow> Inl e
      | Inr valueName \<Rightarrow>
     (case getEnum sValueAttribute [''Required'', ''Optional''] 1 of
        Inl e \<Rightarrow> Inl e
      | Inr optionalIndex \<Rightarrow>
     (case getString sValueAttribute 2 of
        Inl e \<Rightarrow> Inl e
      | Inr typeStr \<Rightarrow>
          (let optional = (optionalIndex = 1);
               nullable = endsWith typeStr ''?'';
               typeStr1 = (if nullable then substring typeStr 0 (length typeStr - 1) else typeStr);
               predefinedType = getPredefinedTypeOrNull typeStr1
           in case (if predefinedType = None
                    then (case get (valueTypeDefs definitions) typeStr1 of
                            Inl e \<Rightarrow> Inl e
                          | Inr d \<Rightarrow> Inr (Some d))
                    else Inr None) of
                Inl e \<Rightarrow> Inl e
              | Inr valueTypeDef \<Rightarrow>
                  addValue structDef valueName optional predefinedType valueTypeDef nullable)))))"

definition loadEnumTypeDef :: "SmlElement \<Rightarrow> SsDefinitions \<Rightarrow> error + SsDefinitions" where
  "loadEnumTypeDef sEnumTypeDef definitions =
     (case assureNoElements sEnumTypeDef of
        Inl e \<Rightarrow> Inl e
      | Inr u \<Rightarrow>
     (case assureAttributeNames sEnumTypeDef [''Name'', ''Values''] of
        Inl e \<Rightarrow> Inl e
      | Inr u \<Rightarrow>
     (case requiredAttribute sEnumTypeDef ''Name'' of
        Inl e \<Rightarrow> Inl e
      | Inr nameAttribute \<Rightarrow>
     (case asString nameAttribute of
        Inl e \<Rightarrow> Inl e
      | Inr n \<Rightarrow>
     (case requiredAttribute sEnumTypeDef ''Values'' of
        Inl e \<Rightarrow> Inl e
      | Inr valuesAttribute \<Rightarrow>
     (case asStringArray valuesAttribute of
        Inl e \<Rightarrow> Inl e
      | Inr vs \<Rightarrow> addEnum definitions n vs))))))"

text \<open>The loops of \<^verbatim>\<open>loadDefinitions\<close> and \<^verbatim>\<open>loadElementDef\<close> that do not descend.\<close>

fun loadEnumTypeDefs :: "SmlElement list \<Rightarrow> SsDefinitions \<Rightarrow> error + SsDefinitions" where
  "loadEnumTypeDefs [] definitions = Inr definitions"
| "loadEnumTypeDefs (sEnumTypeDef # rest) definitions =
     (case loadEnumTypeDef sEnumTypeDef definitions of
        Inl e \<Rightarrow> Inl e
      | Inr d \<Rightarrow> loadEnumTypeDefs rest d)"

fun loadStructValues ::
  "SmlAttribute list \<Rightarrow> SsStructDef \<Rightarrow> SsDefinitions \<Rightarrow> error + SsStructDef" where
  "loadStructValues [] structDef definitions = Inr structDef"
| "loadStructValues (sValueAttribute # rest) structDef definitions =
     (case loadStructValue sValueAttribute structDef definitions of
        Inl e \<Rightarrow> Inl e
      | Inr sd \<Rightarrow> loadStructValues rest sd definitions)"

fun loadStructDefs :: "SmlElement list \<Rightarrow> SsDefinitions \<Rightarrow> error + SsDefinitions" where
  "loadStructDefs [] definitions = Inr definitions"
| "loadStructDefs (sStructDef # rest) definitions =
     (case requiredAttribute sStructDef ''Name'' of
        Inl e \<Rightarrow> Inl e
      | Inr nameAttribute \<Rightarrow>
     (case asString nameAttribute of
        Inl e \<Rightarrow> Inl e
      | Inr n \<Rightarrow>
     (case add structDef_newFunction (structDefs definitions) n of
        Inl e \<Rightarrow> Inl e
      | Inr (structDef, l) \<Rightarrow>
     (case loadStructValues (attributes sStructDef ''Value'') structDef
             (set_structDefs definitions l) of
        Inl e \<Rightarrow> Inl e
      | Inr sd \<Rightarrow>
          loadStructDefs rest
            (set_structDefs definitions (set_entries l (map_set (entries l) n sd)))))))"

fun loadAttributeDefs :: "SmlElement list \<Rightarrow> SsDefinitions \<Rightarrow> error + SsDefinitions" where
  "loadAttributeDefs [] definitions = Inr definitions"
| "loadAttributeDefs (sAttributeDef # rest) definitions =
     (case requiredAttribute sAttributeDef ''Name'' of
        Inl e \<Rightarrow> Inl e
      | Inr nameAttribute \<Rightarrow>
     (case asString nameAttribute of
        Inl e \<Rightarrow> Inl e
      | Inr n \<Rightarrow>
     (case add attributeDef_newFunction (attributeDefs definitions) n of
        Inl e \<Rightarrow> Inl e
      | Inr (attributeDef, l) \<Rightarrow>
     (case requiredAttribute sAttributeDef ''DataType'' of
        Inl e \<Rightarrow> Inl e
      | Inr dataTypeAttribute \<Rightarrow>
     (case asString dataTypeAttribute of
        Inl e \<Rightarrow> Inl e
      | Inr dataTypeStr \<Rightarrow>
     (case loadDataType dataTypeStr (set_attributeDefs definitions l) of
        Inl e \<Rightarrow> Inl e
      | Inr t \<Rightarrow>
     (case set_dataType attributeDef t of
        Inl e \<Rightarrow> Inl e
      | Inr ad \<Rightarrow>
          loadAttributeDefs rest
            (set_attributeDefs definitions (set_entries l (map_set (entries l) n ad))))))))))"

fun loadUnorderedElements ::
  "SmlAttribute list \<Rightarrow> string \<Rightarrow> SsDefinitions \<Rightarrow> SsElementContent \<Rightarrow> error + SsElementContent" where
  "loadUnorderedElements [] owner definitions c = Inr c"
| "loadUnorderedElements (sElementAttribute # rest) owner definitions c =
     (case assureValueCount sElementAttribute 2 of
        Inl e \<Rightarrow> Inl e
      | Inr u \<Rightarrow>
     (case getString sElementAttribute 0 of
        Inl e \<Rightarrow> Inl e
      | Inr elementName \<Rightarrow>
     (case getOccurrence sElementAttribute 1 of
        Inl e \<Rightarrow> Inl e
      | Inr occurrence \<Rightarrow>
     (case addElement owner definitions c elementName occurrence of
        Inl e \<Rightarrow> Inl e
      | Inr c1 \<Rightarrow> loadUnorderedElements rest owner definitions c1))))"

fun loadUnorderedAttributes ::
  "SmlAttribute list \<Rightarrow> string \<Rightarrow> SsDefinitions \<Rightarrow> SsElementContent \<Rightarrow> error + SsElementContent" where
  "loadUnorderedAttributes [] owner definitions c = Inr c"
| "loadUnorderedAttributes (sAttributeAttribute # rest) owner definitions c =
     (case assureValueCountMinMax sAttributeAttribute 2 3 of
        Inl e \<Rightarrow> Inl e
      | Inr u \<Rightarrow>
     (case getString sAttributeAttribute 0 of
        Inl e \<Rightarrow> Inl e
      | Inr attributeName \<Rightarrow>
     (case getOccurrence sAttributeAttribute 1 of
        Inl e \<Rightarrow> Inl e
      | Inr occurrence \<Rightarrow>
     (case (if valueCount sAttributeAttribute = 2
            then addAttribute owner definitions c attributeName occurrence
            else (case getString sAttributeAttribute 2 of
                    Inl e \<Rightarrow> Inl e
                  | Inr dataTypeStr \<Rightarrow>
                 (case loadDataType dataTypeStr definitions of
                    Inl e \<Rightarrow> Inl e
                  | Inr t \<Rightarrow>
                 (case set_dataType (new_SsAttributeDef attributeName) t of
                    Inl e \<Rightarrow> Inl e
                  | Inr inlineAttributeDef \<Rightarrow>
                      addInlineAttribute owner c inlineAttributeDef occurrence)))) of
        Inl e \<Rightarrow> Inl e
      | Inr c1 \<Rightarrow> loadUnorderedAttributes rest owner definitions c1))))"

text \<open>The elements below an element are smaller than it: the loader's descent ends.\<close>

lemma size_all_elements: "size_list size (all_elements ns) \<le> size_list size ns"
  by (induction ns rule: all_elements.induct) simp_all

lemma size_filter: "size_list f (filter P xs) \<le> size_list f xs"
  by (induction xs) simp_all

lemma size_elements: "size_list size (elements s n) < size s"
proof -
  have "size_list size (elements s n) \<le> size_list size (all_elements (nodes s))"
    by (simp add: elements_def size_filter)
  also have "\<dots> \<le> size_list size (nodes s)" by (rule size_all_elements)
  also have "\<dots> < size s" by (cases s) simp
  finally show ?thesis .
qed

lemma size_optionalElement: "optionalElement s n = Inr (Some c) \<Longrightarrow> size c < size s"
proof -
  assume "optionalElement s n = Inr (Some c)"
  then have "elements s n = [c]"
    by (auto simp: optionalElement_def split: list.splits)
  then have "size c < size_list size (elements s n)" by simp
  also have "\<dots> < size s" by (rule size_elements)
  finally show ?thesis .
qed

text \<open>
  \<^verbatim>\<open>loadElementDef\<close> and \<^verbatim>\<open>loadDefinitions\<close> call each other: an element definition may
  hold nested definitions. \<open>parent\<close> is the scope the element was added to, in its current
  state; the scope of the element is linked to it while the element is loaded and stored
  in the element without the link.
\<close>

function loadElementDef ::
    "SmlElement \<Rightarrow> SsDefinitions \<Rightarrow> SsElementDef \<Rightarrow> error + SsElementDef"
  and loadElementDefs :: "SmlElement list \<Rightarrow> SsDefinitions \<Rightarrow> error + SsDefinitions"
  and loadDefinitions :: "SmlElement \<Rightarrow> SsDefinitions \<Rightarrow> error + SsDefinitions" where
  "loadElementDef sElementDef parent elementDef =
     (case assureElementNames sElementDef [''Definitions'', ''UnorderedContent'', ''ListContent''] of
        Inl e \<Rightarrow> Inl e
      | Inr u \<Rightarrow>
     (case assureAttributeNames sElementDef [''Name''] of
        Inl e \<Rightarrow> Inl e
      | Inr u \<Rightarrow>
     (case optionalElement sElementDef ''Definitions'' of
        Inl e \<Rightarrow> Inl e
      | Inr sDefinitionsElement \<Rightarrow>
     (case (case sDefinitionsElement of
              None \<Rightarrow> Inr (definitions_in parent elementDef)
            | Some sDefinitions \<Rightarrow>
                (case assureElementNames sDefinitions
                        [''EnumType'', ''Struct'', ''Attribute'', ''Element''] of
                   Inl e \<Rightarrow> Inl e
                 | Inr u \<Rightarrow>
                (case assureNoAttributes sDefinitions of
                   Inl e \<Rightarrow> Inl e
                 | Inr u \<Rightarrow> loadDefinitions sDefinitions (definitions_in parent elementDef)))) of
        Inl e \<Rightarrow> Inl e
      | Inr definitions \<Rightarrow>
     (case assureChoice sElementDef [''UnorderedContent'', ''ListContent''] of
        Inl e \<Rightarrow> Inl e
      | Inr u \<Rightarrow>
          if hasElement sElementDef ''ListContent'' then Inl Todo
          else if hasElement sElementDef ''UnorderedContent''
          then (case ed_content (setUnorderedContent elementDef) of
                  None \<Rightarrow> Inl NullDereference
                | Some unorderedContent \<Rightarrow>
               (case optionalElement sElementDef ''UnorderedContent'' of
                  Inl e \<Rightarrow> Inl e
                | Inr None \<Rightarrow> Inl NullDereference
                | Inr (Some sUnorderedContentElement) \<Rightarrow>
               (case loadUnorderedElements (attributes sUnorderedContentElement ''Element'')
                       (ed_name elementDef) definitions unorderedContent of
                  Inl e \<Rightarrow> Inl e
                | Inr c1 \<Rightarrow>
               (case loadUnorderedAttributes (attributes sUnorderedContentElement ''Attribute'')
                       (ed_name elementDef) definitions c1 of
                  Inl e \<Rightarrow> Inl e
                | Inr c2 \<Rightarrow>
                    Inr (SsElementDef (ed_name elementDef) (link None definitions) (Some c2))))))
          else Inr (SsElementDef (ed_name elementDef) (link None definitions)
                      (ed_content elementDef)))))))"
| "loadElementDefs [] definitions = Inr definitions"
| "loadElementDefs (sElementDef # rest) definitions =
     (case requiredAttribute sElementDef ''Name'' of
        Inl e \<Rightarrow> Inl e
      | Inr nameAttribute \<Rightarrow>
     (case asString nameAttribute of
        Inl e \<Rightarrow> Inl e
      | Inr n \<Rightarrow>
     (case add elementDef_newFunction (elementDefs definitions) n of
        Inl e \<Rightarrow> Inl e
      | Inr (elementDef, l) \<Rightarrow>
     (case loadElementDef sElementDef (set_elementDefs definitions l) elementDef of
        Inl e \<Rightarrow> Inl e
      | Inr ed \<Rightarrow>
          loadElementDefs rest
            (set_elementDefs definitions (set_entries l (map_set (entries l) n ed)))))))"
| "loadDefinitions sElement definitions =
     (case loadEnumTypeDefs (elements sElement ''EnumType'') definitions of
        Inl e \<Rightarrow> Inl e
      | Inr d1 \<Rightarrow>
     (case loadStructDefs (elements sElement ''Struct'') d1 of
        Inl e \<Rightarrow> Inl e
      | Inr d2 \<Rightarrow>
     (case loadAttributeDefs (elements sElement ''Attribute'') d2 of
        Inl e \<Rightarrow> Inl e
      | Inr d3 \<Rightarrow> loadElementDefs (elements sElement ''Element'') d3)))"
  by pat_completeness auto
termination
proof (relation "measure (\<lambda>x. case x of
          Inl (s, p, e) \<Rightarrow> size s
        | Inr (Inl (ss, d)) \<Rightarrow> size_list size ss
        | Inr (Inr (s, d)) \<Rightarrow> size s)", goal_cases)
  case 1
  show ?case by simp
next
  case (2 sElementDef parent elementDef u1 u2 sDefinitionsElement sDefinitions u3 u4)
  then show ?case by (simp add: size_optionalElement)
next
  case 3
  then show ?case by simp
next
  case 4
  then show ?case by simp
next
  case 5
  then show ?case by (simp add: size_elements)
qed

text \<open>
  \<^verbatim>\<open>parse\<close>. The text is turned into a document by \<^verbatim>\<open>SmlDocument.parse\<close>, the tokenizer
  of \<^verbatim>\<open>sml.js\<close>; the model starts from the root element of that document. \<open>tryParse\<close>
  is the body of the \<^verbatim>\<open>try\<close> block, and \<open>parse\<close> wraps what it throws.
\<close>

definition tryParse :: "SmlElement \<Rightarrow> error + SmlSchema" where
  "tryParse sRootElement =
     (case assureName sRootElement ''Schema'' of
        Inl e \<Rightarrow> Inl e
      | Inr u \<Rightarrow>
     (case assureElementNames sRootElement [''EnumType'', ''Struct'', ''Attribute'', ''Element''] of
        Inl e \<Rightarrow> Inl e
      | Inr u \<Rightarrow>
     (case assureAttributeNames sRootElement [''RootElement''] of
        Inl e \<Rightarrow> Inl e
      | Inr u \<Rightarrow>
     (case loadDefinitions sRootElement (sch_definitions new_SmlSchema) of
        Inl e \<Rightarrow> Inl e
      | Inr d \<Rightarrow>
     (case optionalAttribute sRootElement ''RootElement'' of
        Inl e \<Rightarrow> Inl e
      | Inr sRootElementAttribute \<Rightarrow>
          (case sRootElementAttribute of
             Some a \<Rightarrow>
               (case asString a of
                  Inl e \<Rightarrow> Inl e
                | Inr rootElementName \<Rightarrow>
                    setRootElementByName (new_SmlSchema\<lparr>sch_definitions := d\<rparr>) rootElementName)
           | None \<Rightarrow> setRootElementDefault (new_SmlSchema\<lparr>sch_definitions := d\<rparr>)))))))"

definition parse :: "SmlElement \<Rightarrow> error + SmlSchema" where
  "parse sRootElement =
     (case tryParse sRootElement of
        Inl e \<Rightarrow> Inl (CouldNotParseSchema e)
      | Inr schema \<Rightarrow> Inr schema)"

section \<open>SmlSchemaSerializer\<close>

definition serializeValueTypeDef :: "SsValueTypeDef \<Rightarrow> error + SmlElement" where
  "serializeValueTypeDef valueTypeDef =
     (case valueTypeDef of
        SsEnumTypeDef n vs \<Rightarrow>
          Inr (sml_addAttribute (sml_addAttribute (SmlElement ''EnumTypeDef'' []) ''Name'' [n])
                 ''Values'' vs)
      | _ \<Rightarrow> Inl Todo)"

fun serializeStructValues :: "SsStructValue list \<Rightarrow> SmlElement \<Rightarrow> error + SmlElement" where
  "serializeStructValues [] sStructDef = Inr sStructDef"
| "serializeStructValues (v # rest) sStructDef =
     (case getTypeString v of
        Inl e \<Rightarrow> Inl e
      | Inr typeString \<Rightarrow>
          serializeStructValues rest
            (sml_addAttribute sStructDef ''Value''
               [sv_name v, if sv_optional v then ''Optional'' else ''Required'', typeString]))"

definition serializeStructDef :: "SsStructDef \<Rightarrow> error + SmlElement" where
  "serializeStructDef structDef =
     serializeStructValues (sd_values structDef)
       (sml_addAttribute (SmlElement ''StructDef'' []) ''Name'' [sd_name structDef])"

definition serializeOccurrence :: "SsRange \<Rightarrow> error + string" where
  "serializeOccurrence occurrence =
     (if isRequired occurrence then Inr ''Required''
      else if isOptional occurrence then Inr ''Optional''
      else if isRepeatedPlus occurrence then Inr ''Repeated+''
      else if isRepeatedStar occurrence then Inr ''Repeated*''
      else Inl InvalidOccurrence)"

definition serializeAttributeDef :: "SsAttributeDef \<Rightarrow> error + SmlElement" where
  "serializeAttributeDef attributeDef =
     (case dataType attributeDef of
        Inl e \<Rightarrow> Inl e
      | Inr t \<Rightarrow>
     (case toString t of
        Inl e \<Rightarrow> Inl e
      | Inr typeString \<Rightarrow>
          Inr (sml_addAttribute
                 (sml_addAttribute (SmlElement ''AttributeDef'' []) ''Name'' [ad_name attributeDef])
                 ''DataType'' [typeString])))"

fun serializeUnorderedAttributes ::
  "SsUnorderedAttribute list \<Rightarrow> SmlElement \<Rightarrow> error + SmlElement" where
  "serializeUnorderedAttributes [] sElementDef = Inr sElementDef"
| "serializeUnorderedAttributes (unorderedAttribute # rest) sElementDef =
     (case serializeOccurrence (ua_occurrence unorderedAttribute) of
        Inl e \<Rightarrow> Inl e
      | Inr occurrenceStr \<Rightarrow>
     (case (if ua_inline unorderedAttribute
            then (case dataType (ua_attributeDef unorderedAttribute) of
                    Inl e \<Rightarrow> Inl e
                  | Inr t \<Rightarrow>
                 (case toString t of
                    Inl e \<Rightarrow> Inl e
                  | Inr typeString \<Rightarrow>
                      Inr [ad_name (ua_attributeDef unorderedAttribute), occurrenceStr, typeString]))
            else Inr [ad_name (ua_attributeDef unorderedAttribute), occurrenceStr]) of
        Inl e \<Rightarrow> Inl e
      | Inr vs \<Rightarrow>
          serializeUnorderedAttributes rest (sml_addAttribute sElementDef ''Attribute'' vs)))"

fun serializeUnorderedElements ::
  "SsUnorderedElement list \<Rightarrow> SmlElement \<Rightarrow> error + SmlElement" where
  "serializeUnorderedElements [] sElementDef = Inr sElementDef"
| "serializeUnorderedElements (unorderedElement # rest) sElementDef =
     (case serializeOccurrence (ue_occurrence unorderedElement) of
        Inl e \<Rightarrow> Inl e
      | Inr occurrenceStr \<Rightarrow>
          serializeUnorderedElements rest
            (sml_addAttribute sElementDef ''Element''
               [ue_elementDef unorderedElement, occurrenceStr]))"

definition serializeContent :: "SsElementContent option \<Rightarrow> SmlElement \<Rightarrow> error + SmlElement" where
  "serializeContent content sElementDef =
     (case content of
        None \<Rightarrow> Inr sElementDef
      | Some SsOrderedContent \<Rightarrow> Inl Todo
      | Some (SsUnorderedContent es ats) \<Rightarrow>
          (case serializeUnorderedAttributes (map snd ats) sElementDef of
             Inl e \<Rightarrow> Inl e
           | Inr s1 \<Rightarrow> serializeUnorderedElements (map snd es) s1))"

text \<open>The three loops of \<^verbatim>\<open>serializeDefinitions\<close> that do not descend.\<close>

fun serializeValueTypeDefs :: "SsValueTypeDef list \<Rightarrow> SmlElement \<Rightarrow> error + SmlElement" where
  "serializeValueTypeDefs [] sElement = Inr sElement"
| "serializeValueTypeDefs (valueTypeDef # rest) sElement =
     (case serializeValueTypeDef valueTypeDef of
        Inl e \<Rightarrow> Inl e
      | Inr c \<Rightarrow> serializeValueTypeDefs rest (sml_addElement sElement c))"

fun serializeStructDefs :: "SsStructDef list \<Rightarrow> SmlElement \<Rightarrow> error + SmlElement" where
  "serializeStructDefs [] sElement = Inr sElement"
| "serializeStructDefs (structDef # rest) sElement =
     (case serializeStructDef structDef of
        Inl e \<Rightarrow> Inl e
      | Inr c \<Rightarrow> serializeStructDefs rest (sml_addElement sElement c))"

fun serializeAttributeDefs :: "SsAttributeDef list \<Rightarrow> SmlElement \<Rightarrow> error + SmlElement" where
  "serializeAttributeDefs [] sElement = Inr sElement"
| "serializeAttributeDefs (attributeDef # rest) sElement =
     (case serializeAttributeDef attributeDef of
        Inl e \<Rightarrow> Inl e
      | Inr c \<Rightarrow> serializeAttributeDefs rest (sml_addElement sElement c))"

text \<open>
  \<^verbatim>\<open>serializeElementDef\<close> and \<^verbatim>\<open>serializeDefinitions\<close> call each other.
  \<open>serializeElementDefs\<close> is the loop over the element definitions of a scope; each
  function returns the element it was given, with what it appended.
\<close>

fun serializeElementDef :: "SsElementDef \<Rightarrow> SmlElement \<Rightarrow> error + SmlElement"
  and serializeElementDefs :: "(string \<times> SsElementDef) list \<Rightarrow> SmlElement \<Rightarrow> error + SmlElement"
  and serializeDefinitions :: "SsDefinitions \<Rightarrow> SmlElement \<Rightarrow> error + SmlElement" where
  "serializeElementDef (SsElementDef n definitions content) sElement =
     (case serializeDefinitions definitions
             (sml_addAttribute (SmlElement ''ElementDef'' []) ''Name'' [n]) of
        Inl e \<Rightarrow> Inl e
      | Inr s1 \<Rightarrow>
     (case serializeContent content s1 of
        Inl e \<Rightarrow> Inl e
      | Inr sElementDef \<Rightarrow> Inr (sml_addElement sElement sElementDef)))"
| "serializeElementDefs [] sElement = Inr sElement"
| "serializeElementDefs ((n, elementDef) # rest) sElement =
     (case serializeElementDef elementDef sElement of
        Inl e \<Rightarrow> Inl e
      | Inr s1 \<Rightarrow> serializeElementDefs rest s1)"
| "serializeDefinitions (SsDefinitions vs ss as (SsDefinitionList es p td sd) owner) sElement =
     (case serializeValueTypeDefs (values_of vs) sElement of
        Inl e \<Rightarrow> Inl e
      | Inr s1 \<Rightarrow>
     (case serializeStructDefs (values_of ss) s1 of
        Inl e \<Rightarrow> Inl e
      | Inr s2 \<Rightarrow>
     (case serializeAttributeDefs (values_of as) s2 of
        Inl e \<Rightarrow> Inl e
      | Inr s3 \<Rightarrow> serializeElementDefs es s3)))"

definition serialize :: "SmlSchema \<Rightarrow> error + SmlElement" where
  "serialize schema =
     (case serializeDefinitions (sch_definitions schema) (SmlElement ''Schema'' []) of
        Inl e \<Rightarrow> Inl e
      | Inr sRootElement \<Rightarrow>
          if length (values_of (elementDefs (sch_definitions schema))) > 1
          then (case getRootElement schema of
                  Inl e \<Rightarrow> Inl e
                | Inr (Ref n) \<Rightarrow> Inr (sml_addAttribute sRootElement ''RootElement'' [n])
                | Inr _ \<Rightarrow> Inl NullDereference)
          else Inr sRootElement)"

section \<open>Concrete inputs\<close>

text \<open>
  The struct \<open>Point\<close> of the specification: \<open>x\<close> required and \<open>color\<close> optional are
  accepted, and a further required \<open>y\<close> is refused.
\<close>

definition point_x :: SsStructValue where
  "point_x = \<lparr>sv_name = ''x'', sv_optional = False, sv_predefinedType = Some NumberT,
              sv_valueTypeDef = None, sv_nullable = False\<rparr>"

definition point_color :: SsStructValue where
  "point_color = \<lparr>sv_name = ''color'', sv_optional = True, sv_predefinedType = None,
                  sv_valueTypeDef = Some (SsEnumTypeDef ''Color'' [''Red'', ''Green'', ''Blue'']),
                  sv_nullable = False\<rparr>"

text \<open>
  A schema scope that defines the struct \<open>X\<close> with one value, and the empty scope of an
  element \<open>E\<close> nested in it.
\<close>

definition outer_structs :: "SsStructDef SsDefinitionList" where
  "outer_structs =
     SsDefinitionList [(''X'', \<lparr>sd_name = ''X'', sd_values = [point_x]\<rparr>)] None
       ''StructDef'' ''schema''"

definition inner_structs :: "SsStructDef SsDefinitionList" where
  "inner_structs =
     SsDefinitionList [] (Some outer_structs) ''StructDef'' (''ElementDef '' @ [CHR 0x22] @ ''E'' @ [CHR 0x22])"

text \<open>Three source objects with the constructs generated for them.\<close>

definition three_sources :: "(nat \<times> string) list" where
  "three_sources = [(1, ''a''), (2, ''b''), (3, ''c'')]"

text \<open>
  A schema built through the API, \<^verbatim>\<open>new SmlSchema()\<close> and then
  \<^verbatim>\<open>definitions.addEnum("Color", ["Red", "Green", "Blue"])\<close>, and the round trip of a
  schema: \<^verbatim>\<open>serialize\<close>, then the loader on the document.
\<close>

definition color_schema :: "error + SmlSchema" where
  "color_schema =
     (case addEnum (sch_definitions new_SmlSchema) ''Color'' [''Red'', ''Green'', ''Blue''] of
        Inl e \<Rightarrow> Inl e
      | Inr d \<Rightarrow> Inr (new_SmlSchema\<lparr>sch_definitions := d\<rparr>))"

definition color_schema_value :: SmlSchema where
  "color_schema_value =
     \<lparr>sch_definitions =
        SsDefinitions
          (SsDefinitionList [(''Color'', SsEnumTypeDef ''Color'' [''Red'', ''Green'', ''Blue''])]
             None ''ValueTypeDef'' ''schema'')
          (SsDefinitionList [] None ''StructDef'' ''schema'')
          (SsDefinitionList [] None ''AttributeDef'' ''schema'')
          (SsDefinitionList [] None ''ElementDef'' ''schema'')
          None,
      sch_rootElement = Null\<rparr>"

definition color_document :: SmlElement where
  "color_document =
     SmlElement ''Schema''
       [ElementNode
          (SmlElement ''EnumTypeDef''
             [AttributeNode \<lparr>at_name = ''Name'', at_values = [''Color'']\<rparr>,
              AttributeNode \<lparr>at_name = ''Values'', at_values = [''Red'', ''Green'', ''Blue'']\<rparr>])]"

definition roundTrip :: "SmlSchema \<Rightarrow> error + SmlSchema" where
  "roundTrip schema =
     (case serialize schema of Inl e \<Rightarrow> Inl e | Inr document \<Rightarrow> parse document)"

text \<open>The schema document without any definition: \<^verbatim>\<open>Schema\<close>, \<^verbatim>\<open>End\<close>.\<close>

definition empty_document :: SmlElement where
  "empty_document = SmlElement ''Schema'' []"

text \<open>
  The schema of the specification's end-to-end example, as a document: the element
  \<open>Person\<close> with the attributes \<open>Name\<close> (required, a string) and \<open>Age\<close> (optional, an
  integer), named as the root element.
\<close>

definition person_document :: SmlElement where
  "person_document =
     SmlElement ''Schema''
       [AttributeNode \<lparr>at_name = ''RootElement'', at_values = [''Person'']\<rparr>,
        ElementNode
          (SmlElement ''Element''
             [AttributeNode \<lparr>at_name = ''Name'', at_values = [''Person'']\<rparr>,
              ElementNode
                (SmlElement ''UnorderedContent''
                   [AttributeNode \<lparr>at_name = ''Attribute'',
                                   at_values = [''Name'', ''Required'', ''String'']\<rparr>,
                    AttributeNode \<lparr>at_name = ''Attribute'',
                                   at_values = [''Age'', ''Optional'', ''Int'']\<rparr>])])]"

definition person_content :: SsElementContent where
  "person_content =
     SsUnorderedContent []
       [(''Name'',
         \<lparr>ua_attributeDef =
            \<lparr>ad_name = ''Name'',
              ad_dataType = Some \<lparr>adt_predefinedType = Some StringT, adt_valueTypeDef = None,
                adt_structDef = None, adt_nullable = False, adt_arrayRange = None,
                adt_arrayNullable = False\<rparr>\<rparr>,
           ua_occurrence = \<lparr>minR = Some (Num 1), maxR = Some (Num 1)\<rparr>, ua_inline = True\<rparr>),
        (''Age'',
         \<lparr>ua_attributeDef =
            \<lparr>ad_name = ''Age'',
              ad_dataType = Some \<lparr>adt_predefinedType = Some IntT, adt_valueTypeDef = None,
                adt_structDef = None, adt_nullable = False, adt_arrayRange = None,
                adt_arrayNullable = False\<rparr>\<rparr>,
           ua_occurrence = \<lparr>minR = Some (Num 0), maxR = Some (Num 1)\<rparr>, ua_inline = True\<rparr>)]"

definition person_schema :: SmlSchema where
  "person_schema =
     \<lparr>sch_definitions =
        SsDefinitions
          (SsDefinitionList [] None ''ValueTypeDef'' ''schema'')
          (SsDefinitionList [] None ''StructDef'' ''schema'')
          (SsDefinitionList [] None ''AttributeDef'' ''schema'')
          (SsDefinitionList
             [(''Person'',
               SsElementDef ''Person''
                 (new_SsDefinitions (Some ''Person'') None) (Some person_content))]
             None ''ElementDef'' ''schema'')
          None,
      sch_rootElement = Ref ''Person''\<rparr>"

text \<open>
  A schema document with nested scopes: the attribute \<open>Id\<close> and the element \<open>Person\<close> at the
  top, and inside \<open>Person\<close> the definitions of an attribute \<open>Id\<close>, which shadows the outer
  one, and of an element \<open>Child\<close>, which refers to itself and to the enclosing \<open>Person\<close>.
\<close>

definition nested_document :: SmlElement where
  "nested_document =
     SmlElement ''Schema''
       [ElementNode
          (SmlElement ''Attribute''
             [AttributeNode \<lparr>at_name = ''Name'', at_values = [''Id'']\<rparr>,
              AttributeNode \<lparr>at_name = ''DataType'', at_values = [''Int'']\<rparr>]),
        ElementNode
          (SmlElement ''Element''
             [AttributeNode \<lparr>at_name = ''Name'', at_values = [''Person'']\<rparr>,
              ElementNode
                (SmlElement ''Definitions''
                   [ElementNode
                      (SmlElement ''Attribute''
                         [AttributeNode \<lparr>at_name = ''Name'', at_values = [''Id'']\<rparr>,
                          AttributeNode \<lparr>at_name = ''DataType'', at_values = [''String?'']\<rparr>]),
                    ElementNode
                      (SmlElement ''Element''
                         [AttributeNode \<lparr>at_name = ''Name'', at_values = [''Child'']\<rparr>,
                          ElementNode
                            (SmlElement ''UnorderedContent''
                               [AttributeNode \<lparr>at_name = ''Element'',
                                               at_values = [''Person'', ''Optional'']\<rparr>,
                                AttributeNode \<lparr>at_name = ''Element'',
                                               at_values = [''Child'', ''Repeated*'']\<rparr>,
                                AttributeNode \<lparr>at_name = ''Attribute'',
                                               at_values = [''Id'', ''Required'']\<rparr>])])]),
              ElementNode
                (SmlElement ''UnorderedContent''
                   [AttributeNode \<lparr>at_name = ''Element'', at_values = [''Child'', ''Repeated+'']\<rparr>,
                    AttributeNode \<lparr>at_name = ''Attribute'',
                                   at_values = [''Id'', ''Optional'']\<rparr>])])]"

text \<open>The data type of the attribute entry \<open>Id\<close> of an element definition, if it has one.\<close>

definition id_type_of :: "SsElementDef \<Rightarrow> error + string" where
  "id_type_of e =
     (case ed_content e of
        Some (SsUnorderedContent es ats) \<Rightarrow>
          (case map_of ats ''Id'' of
             Some a \<Rightarrow>
               (case dataType (ua_attributeDef a) of Inl x \<Rightarrow> Inl x | Inr t \<Rightarrow> toString t)
           | None \<Rightarrow> Inl NullDereference)
      | _ \<Rightarrow> Inl NullDereference)"

definition nested_id_types :: "SmlSchema \<Rightarrow> (error + string) list" where
  "nested_id_types s =
     (case getOrNull (elementDefs (sch_definitions s)) ''Person'' of
        None \<Rightarrow> []
      | Some person \<Rightarrow>
          id_type_of person
          # (case getOrNull (elementDefs (ed_definitions person)) ''Child'' of
               None \<Rightarrow> []
             | Some child \<Rightarrow> [id_type_of child]))"

section \<open>Range predicates of the named constructors\<close>

lemmas range_defs =
  new_SsRange_def predicates_def isRequired_def isOptional_def isRepeatedPlus_def
  isRepeatedStar_def isFixed_def SsRange_required_def SsRange_optional_def
  SsRange_repeatedPlus_def SsRange_repeatedStar_def SsRange_fixed_def

text \<open>
  C6, as stated, fails: \<^verbatim>\<open>SsRange.required()\<close> produces the range (1, 1), on which both
  \<^verbatim>\<open>isRequired\<close> and \<^verbatim>\<open>isFixed\<close> hold, so two of the five predicates hold and not one.
\<close>

theorem required_range_is_also_fixed:
  "SsRange_required = Inr \<lparr>minR = Some (Num 1), maxR = Some (Num 1)\<rparr>
   \<and> isRequired \<lparr>minR = Some (Num 1), maxR = Some (Num 1)\<rparr>
   \<and> isFixed \<lparr>minR = Some (Num 1), maxR = Some (Num 1)\<rparr>
   \<and> holding \<lparr>minR = Some (Num 1), maxR = Some (Num 1)\<rparr> = 2"
  by (simp add: range_defs holding_def)

text \<open>
  C6, amended: on the ranges produced by \<^verbatim>\<open>optional()\<close>, \<^verbatim>\<open>repeatedPlus()\<close> and
  \<^verbatim>\<open>repeatedStar()\<close> exactly one of the five predicates holds (the one of the same name);
  on the range of \<^verbatim>\<open>required()\<close> exactly \<^verbatim>\<open>isRequired\<close> and \<^verbatim>\<open>isFixed\<close> hold; on the
  range of \<^verbatim>\<open>fixed(n)\<close> for an integer \<open>n\<close>, \<^verbatim>\<open>isFixed\<close> holds, \<^verbatim>\<open>isRequired\<close> holds as well
  exactly when \<open>n = 1\<close>, and no other predicate holds; on the range of \<^verbatim>\<open>fixed(NaN)\<close> none
  holds. The lists give \<^verbatim>\<open>isRequired\<close>, \<^verbatim>\<open>isOptional\<close>, \<^verbatim>\<open>isRepeatedPlus\<close>,
  \<^verbatim>\<open>isRepeatedStar\<close>, \<^verbatim>\<open>isFixed\<close> in this order.
\<close>

theorem named_constructor_predicates:
  "(\<exists>r. SsRange_required = Inr r \<and> predicates r = [True, False, False, False, True]) \<and>
   (\<exists>r. SsRange_optional = Inr r \<and> predicates r = [False, True, False, False, False]) \<and>
   (\<exists>r. SsRange_repeatedPlus = Inr r \<and> predicates r = [False, False, True, False, False]) \<and>
   (\<exists>r. SsRange_repeatedStar = Inr r \<and> predicates r = [False, False, False, True, False]) \<and>
   (\<exists>r. SsRange_fixed (Num n) = Inr r \<and> predicates r = [n = 1, False, False, False, True]) \<and>
   (\<exists>r. SsRange_fixed NaN = Inr r \<and> predicates r = [False, False, False, False, False])"
  by (simp add: range_defs)

theorem named_constructor_predicates_witness:
  "(\<exists>r. SsRange_fixed (Num 3) = Inr r \<and> predicates r = [False, False, False, False, True]) \<and>
   (\<exists>r. SsRange_optional = Inr r \<and> holding r = 1)"
  using named_constructor_predicates [of 3] by (auto simp: holding_def)

section \<open>The constructor of SsAttributeDataType\<close>

text \<open>
  C5: constructing an attribute data type fails whenever \<open>arrayNullable\<close> is true and no
  array range is given, and whenever the base kind is a struct with an optional value and
  an array range is given; the result is then an exception (\<open>Inl\<close>) and no data type.
\<close>

theorem attributeDataType_constructor_fails:
  "isl (new_SsAttributeDataType p v s nl None True)
   \<and> (hasOptional sd \<longrightarrow> isl (new_SsAttributeDataType p v (Some sd) nl (Some r) an))"
  by (simp add: new_SsAttributeDataType_def)

theorem attributeDataType_constructor_fails_witness:
  "hasOptional \<lparr>sd_name = ''Point'', sd_values =
       [\<lparr>sv_name = ''color'', sv_optional = True, sv_predefinedType = Some StringT,
          sv_valueTypeDef = None, sv_nullable = False\<rparr>]\<rparr>
   \<and> isl (new_SsAttributeDataType None None
       (Some \<lparr>sd_name = ''Point'', sd_values =
          [\<lparr>sv_name = ''color'', sv_optional = True, sv_predefinedType = Some StringT,
             sv_valueTypeDef = None, sv_nullable = False\<rparr>]\<rparr>)
       False (Some \<lparr>minR = Some (Num 2), maxR = Some (Num 2)\<rparr>) False)
   \<and> isl (new_SsAttributeDataType (Some IntT) None None False None True)"
  using attributeDataType_constructor_fails
    [where p = "Some IntT" and v = None and s = None and nl = False
       and sd = "\<lparr>sd_name = ''Point'', sd_values =
           [\<lparr>sv_name = ''color'', sv_optional = True, sv_predefinedType = Some StringT,
              sv_valueTypeDef = None, sv_nullable = False\<rparr>]\<rparr>"]
    attributeDataType_constructor_fails
    [where p = None and v = None and nl = False
       and sd = "\<lparr>sd_name = ''Point'', sd_values =
           [\<lparr>sv_name = ''color'', sv_optional = True, sv_predefinedType = Some StringT,
              sv_valueTypeDef = None, sv_nullable = False\<rparr>]\<rparr>"
       and r = "\<lparr>minR = Some (Num 2), maxR = Some (Num 2)\<rparr>" and an = False]
  by (simp add: hasOptional_def)

section \<open>The trailing-optional rule of SsStructDef\<close>

lemma addValue_of_cases:
  "addValue_of sd v =
     (if sd_values sd \<noteq> [] \<and> \<not> sv_optional v \<and> sv_optional (last (sd_values sd))
      then Inl ValueNotOptional else Inr (sd\<lparr>sd_values := sd_values sd @ [v]\<rparr>))"
proof -
  have v: "\<lparr>sv_name = sv_name v, sv_optional = sv_optional v,
            sv_predefinedType = sv_predefinedType v, sv_valueTypeDef = sv_valueTypeDef v,
            sv_nullable = sv_nullable v\<rparr> = v"
    by simp
  have l: "sd_values sd \<noteq> [] \<Longrightarrow> sd_values sd ! (length (sd_values sd) - 1) = last (sd_values sd)"
    by (simp add: last_conv_nth)
  show ?thesis
    unfolding addValue_of_def addValue_def Let_def v
    using l by auto
qed

lemma trailingOptional_Cons:
  "trailingOptional (v # vs) =
     (if sv_optional v then list_all sv_optional vs else trailingOptional vs)"
  by (simp add: trailingOptional_def)

lemma trailingOptional_snoc:
  "trailingOptional (vs @ [v]) =
     (trailingOptional vs \<and> ((\<exists>w \<in> set vs. sv_optional w) \<longrightarrow> sv_optional v))"
proof (induction vs)
  case Nil
  show ?case by (simp add: trailingOptional_def)
next
  case (Cons a vs)
  show ?case
  proof (cases "sv_optional a")
    case True
    then show ?thesis by (simp add: trailingOptional_Cons)
  next
    case False
    then show ?thesis using Cons.IH by (simp add: trailingOptional_Cons)
  qed
qed

text \<open>The executable rule says what its name says: no required value follows an optional one.\<close>

lemma trailingOptional_iff:
  "trailingOptional vs =
     (\<forall>i j. i < j \<and> j < length vs \<and> sv_optional (vs ! i) \<longrightarrow> sv_optional (vs ! j))"
proof (induction vs rule: rev_induct)
  case Nil
  show ?case by (simp add: trailingOptional_def)
next
  case (snoc v vs)
  have "(\<forall>i j. i < j \<and> j < length (vs @ [v]) \<and> sv_optional ((vs @ [v]) ! i)
           \<longrightarrow> sv_optional ((vs @ [v]) ! j))
        = ((\<forall>i j. i < j \<and> j < length vs \<and> sv_optional (vs ! i) \<longrightarrow> sv_optional (vs ! j))
           \<and> ((\<exists>w \<in> set vs. sv_optional w) \<longrightarrow> sv_optional v))"
    (is "?L = (?A \<and> ?B)")
  proof
    assume L: ?L
    have ?A
    proof (intro allI impI)
      fix i j
      assume a: "i < j \<and> j < length vs \<and> sv_optional (vs ! i)"
      then have ij: "i < length vs" "j < length vs" by simp_all
      have "sv_optional ((vs @ [v]) ! j)"
        using L [rule_format, of i j] a ij by (simp add: nth_append)
      with ij show "sv_optional (vs ! j)" by (simp add: nth_append)
    qed
    moreover have ?B
    proof
      assume "\<exists>w \<in> set vs. sv_optional w"
      then obtain i where i: "i < length vs" "sv_optional (vs ! i)"
        by (auto simp: in_set_conv_nth)
      then show "sv_optional v"
        using L [rule_format, of i "length vs"] by (simp add: nth_append)
    qed
    ultimately show "?A \<and> ?B" ..
  next
    assume AB: "?A \<and> ?B"
    show ?L
    proof (intro allI impI)
      fix i j
      assume a: "i < j \<and> j < length (vs @ [v]) \<and> sv_optional ((vs @ [v]) ! i)"
      show "sv_optional ((vs @ [v]) ! j)"
      proof (cases "j < length vs")
        case True
        from a True have il: "i < length vs" by auto
        with a have "sv_optional (vs ! i)" by (simp add: nth_append)
        with a True AB have "sv_optional (vs ! j)" by blast
        with True show ?thesis by (simp add: nth_append)
      next
        case False
        with a have j: "j = length vs" and i: "i < length vs" by simp_all
        with a have "sv_optional (vs ! i)" by (simp add: nth_append)
        with i have "\<exists>w \<in> set vs. sv_optional w" using nth_mem by blast
        with AB j show ?thesis by simp
      qed
    qed
  qed
  with snoc.IH show ?case by (simp only: trailingOptional_snoc)
qed

lemma trailingOptional_last:
  "trailingOptional vs \<Longrightarrow> \<exists>w \<in> set vs. sv_optional w \<Longrightarrow> sv_optional (last vs)"
proof (induction vs)
  case Nil
  then show ?case by simp
next
  case (Cons a vs)
  show ?case
  proof (cases "vs = []")
    case True
    then show ?thesis using Cons.prems by simp
  next
    case False
    show ?thesis
    proof (cases "sv_optional a")
      case True
      then have "list_all sv_optional vs"
        using Cons.prems(1) by (simp add: trailingOptional_Cons)
      then have "sv_optional (last vs)" using False by (simp add: list_all_iff)
      then show ?thesis using False by simp
    next
      case F: False
      then have "trailingOptional vs" "\<exists>w \<in> set vs. sv_optional w"
        using Cons.prems by (simp_all add: trailingOptional_Cons)
      then show ?thesis using Cons.IH False by simp
    qed
  qed
qed

lemma hasOptional_iff: "hasOptional sd = (\<exists>w \<in> set (sd_values sd). sv_optional w)"
  by (auto simp: hasOptional_def find_None_iff)

lemma trailingOptional_prefix: "trailingOptional (xs @ ys) \<Longrightarrow> trailingOptional xs"
proof (induction ys rule: rev_induct)
  case Nil
  then show ?case by simp
next
  case (snoc y ys)
  from snoc.prems have "trailingOptional ((xs @ ys) @ [y])" by simp
  then have "trailingOptional (xs @ ys)" by (simp only: trailingOptional_snoc)
  then show ?case by (rule snoc.IH)
qed

lemma trailingOptional_required_then_optional:
  "list_all (\<lambda>v. \<not> sv_optional v) reqs \<Longrightarrow> list_all sv_optional opts
     \<Longrightarrow> trailingOptional (reqs @ opts)"
proof (induction reqs)
  case Nil
  then show ?case
    by (induction opts) (simp_all add: trailingOptional_def)
next
  case (Cons a reqs)
  then show ?case by (simp add: trailingOptional_Cons)
qed

lemma addValue_of_fails:
  assumes t: "trailingOptional (sd_values sd)" and h: "hasOptional sd" and r: "\<not> sv_optional v"
  shows "addValue_of sd v = Inl ValueNotOptional"
proof -
  from h have ex: "\<exists>w \<in> set (sd_values sd). sv_optional w" by (simp add: hasOptional_iff)
  then have ne: "sd_values sd \<noteq> []" by auto
  from t ex have "sv_optional (last (sd_values sd))" by (rule trailingOptional_last)
  with ne r show ?thesis by (simp add: addValue_of_cases)
qed

lemma addValue_of_keeps:
  assumes t: "trailingOptional (sd_values sd)" and a: "addValue_of sd v = Inr sd'"
  shows "trailingOptional (sd_values sd')"
proof -
  from a have ok: "\<not> (sd_values sd \<noteq> [] \<and> \<not> sv_optional v \<and> sv_optional (last (sd_values sd)))"
    and sd': "sd' = sd\<lparr>sd_values := sd_values sd @ [v]\<rparr>"
    by (auto simp: addValue_of_cases split: if_splits)
  have "(\<exists>w \<in> set (sd_values sd). sv_optional w) \<longrightarrow> sv_optional v"
  proof
    assume ex: "\<exists>w \<in> set (sd_values sd). sv_optional w"
    then have ne: "sd_values sd \<noteq> []" by auto
    from t ex have "sv_optional (last (sd_values sd))" by (rule trailingOptional_last)
    with ne ok show "sv_optional v" by blast
  qed
  with t show ?thesis by (simp add: sd' trailingOptional_snoc)
qed

lemma addValues_caught_keeps:
  "trailingOptional (sd_values sd) \<Longrightarrow> trailingOptional (sd_values (addValues_caught sd ops))"
proof (induction ops arbitrary: sd)
  case Nil
  then show ?case by simp
next
  case (Cons v ops)
  show ?case
  proof (cases "addValue_of sd v")
    case (Inl e)
    then show ?thesis using Cons by simp
  next
    case (Inr sd')
    then have "trailingOptional (sd_values sd')"
      using Cons.prems by (auto intro: addValue_of_keeps)
    then show ?thesis using Inr Cons.IH by simp
  qed
qed

lemma addValues_succeeds:
  "trailingOptional (sd_values sd @ vs)
     \<Longrightarrow> addValues sd vs = Inr (sd\<lparr>sd_values := sd_values sd @ vs\<rparr>)"
proof (induction vs arbitrary: sd)
  case Nil
  then show ?case by simp
next
  case (Cons v vs)
  from Cons.prems have "trailingOptional ((sd_values sd @ [v]) @ vs)" by simp
  then have tv: "trailingOptional (sd_values sd @ [v])" by (rule trailingOptional_prefix)
  then have imp: "(\<exists>w \<in> set (sd_values sd). sv_optional w) \<longrightarrow> sv_optional v"
    by (simp add: trailingOptional_snoc)
  have ok: "\<not> (sd_values sd \<noteq> [] \<and> \<not> sv_optional v \<and> sv_optional (last (sd_values sd)))"
    using imp last_in_set by blast
  then have a: "addValue_of sd v = Inr (sd\<lparr>sd_values := sd_values sd @ [v]\<rparr>)"
    by (simp add: addValue_of_cases)
  have "addValues (sd\<lparr>sd_values := sd_values sd @ [v]\<rparr>) vs
        = Inr (sd\<lparr>sd_values := sd_values sd @ [v]\<rparr>
                 \<lparr>sd_values := sd_values (sd\<lparr>sd_values := sd_values sd @ [v]\<rparr>) @ vs\<rparr>)"
    by (rule Cons.IH) (use Cons.prems in simp)
  then show ?case using a by simp
qed

text \<open>
  C4: in a struct definition reached from a new one by any sequence of \<^verbatim>\<open>addValue\<close> calls
  (failed calls included, their exception caught), adding a required value fails as soon
  as the struct contains an optional value; a sequence of required values followed by
  optional values is accepted as a whole by a new struct; and the values of every
  reachable struct obey the trailing-optional rule.
\<close>

theorem structDef_trailing_optional:
  "(hasOptional (addValues_caught (new_SsStructDef n) ops) \<longrightarrow>
      addValue (addValues_caught (new_SsStructDef n) ops) nm False p v nl = Inl ValueNotOptional)
   \<and> (list_all (\<lambda>v. \<not> sv_optional v) reqs \<and> list_all sv_optional opts \<longrightarrow>
        addValues (new_SsStructDef n) (reqs @ opts) = Inr \<lparr>sd_name = n, sd_values = reqs @ opts\<rparr>)
   \<and> trailingOptional (sd_values (addValues_caught (new_SsStructDef n) ops))"
proof -
  let ?sd = "addValues_caught (new_SsStructDef n) ops"
  have t0: "trailingOptional (sd_values (new_SsStructDef n))"
    by (simp add: new_SsStructDef_def trailingOptional_def)
  then have t: "trailingOptional (sd_values ?sd)" by (rule addValues_caught_keeps)
  have 1: "hasOptional ?sd \<longrightarrow> addValue ?sd nm False p v nl = Inl ValueNotOptional"
  proof
    assume h: "hasOptional ?sd"
    have "addValue_of ?sd \<lparr>sv_name = nm, sv_optional = False, sv_predefinedType = p,
            sv_valueTypeDef = v, sv_nullable = nl\<rparr> = Inl ValueNotOptional"
      using t h by (rule addValue_of_fails) simp
    then show "addValue ?sd nm False p v nl = Inl ValueNotOptional"
      by (simp add: addValue_of_def)
  qed
  have 2: "list_all (\<lambda>v. \<not> sv_optional v) reqs \<and> list_all sv_optional opts \<longrightarrow>
        addValues (new_SsStructDef n) (reqs @ opts) = Inr \<lparr>sd_name = n, sd_values = reqs @ opts\<rparr>"
  proof
    assume a: "list_all (\<lambda>v. \<not> sv_optional v) reqs \<and> list_all sv_optional opts"
    then have "trailingOptional (reqs @ opts)"
      by (simp add: trailingOptional_required_then_optional)
    then have "trailingOptional (sd_values (new_SsStructDef n) @ (reqs @ opts))"
      by (simp add: new_SsStructDef_def)
    then have "addValues (new_SsStructDef n) (reqs @ opts)
        = Inr ((new_SsStructDef n)\<lparr>sd_values := sd_values (new_SsStructDef n) @ (reqs @ opts)\<rparr>)"
      by (rule addValues_succeeds)
    then show "addValues (new_SsStructDef n) (reqs @ opts)
        = Inr \<lparr>sd_name = n, sd_values = reqs @ opts\<rparr>"
      by (simp add: new_SsStructDef_def)
  qed
  from 1 2 t show ?thesis by blast
qed

theorem structDef_trailing_optional_witness:
  "hasOptional (addValues_caught (new_SsStructDef ''Point'') [point_x, point_color])
   \<and> addValue (addValues_caught (new_SsStructDef ''Point'') [point_x, point_color])
        ''y'' False (Some NumberT) None False = Inl ValueNotOptional
   \<and> list_all (\<lambda>v. \<not> sv_optional v) [point_x] \<and> list_all sv_optional [point_color]
   \<and> addValues (new_SsStructDef ''Point'') ([point_x] @ [point_color])
        = Inr \<lparr>sd_name = ''Point'', sd_values = [point_x] @ [point_color]\<rparr>
   \<and> trailingOptional (sd_values (addValues_caught (new_SsStructDef ''Point'') [point_x, point_color]))"
proof -
  have h: "hasOptional (addValues_caught (new_SsStructDef ''Point'') [point_x, point_color])"
    by (simp add: addValue_of_cases new_SsStructDef_def point_x_def point_color_def hasOptional_def)
  have r: "list_all (\<lambda>v. \<not> sv_optional v) [point_x] \<and> list_all sv_optional [point_color]"
    by (simp add: point_x_def point_color_def)
  show ?thesis
    using h r structDef_trailing_optional
      [of "''Point''" "[point_x, point_color]" "''y''" "Some NumberT" None False
          "[point_x]" "[point_color]"]
    by blast
qed

section \<open>Scoped lookup in SsDefinitionList\<close>

lemma getOrNull_local: "map_of (entries l) n = Some item \<Longrightarrow> getOrNull l n = Some item"
  by (cases l) simp

lemma getOrNull_parent:
  "map_of (entries l) n = None
     \<Longrightarrow> getOrNull l n = (case parentList l of None \<Rightarrow> None | Some p \<Rightarrow> getOrNull p n)"
  by (cases l) simp

lemma has_local: "map_of (entries l) n \<noteq> None \<Longrightarrow> has l n"
  by (cases l) simp

lemma has_parent:
  "map_of (entries l) n = None
     \<Longrightarrow> has l n = (case parentList l of None \<Rightarrow> False | Some p \<Rightarrow> has p n)"
  by (cases l) simp

lemma has_getOrNull: "has l n = (getOrNull l n \<noteq> None)"
  by (induction l n rule: has.induct) (auto split: option.splits)

lemma map_of_map_set: "map_of m n = None \<Longrightarrow> map_of (map_set m n item) n = Some item"
  by (simp add: map_set_def map_add_def)

lemma add_fails_iff: "isl (add f l n) = (map_of (entries l) n \<noteq> None \<or> isl (f n))"
  by (auto simp: add_def split: sum.splits)

lemma addExisting_fails_iff: "isl (addExisting l n item) = (map_of (entries l) n \<noteq> None)"
  by (auto simp: addExisting_def)

lemma add_shadows:
  "add f l n = Inr (item, l')
     \<Longrightarrow> getOrNull l' n = Some item \<and> get l' n = Inr item \<and> parentList l' = parentList l"
  by (auto simp: add_def get_def set_entries_def map_of_map_set split: if_splits sum.splits)

lemma addExisting_shadows:
  "addExisting l n item = Inr (item', l')
     \<Longrightarrow> getOrNull l' n = Some item \<and> get l' n = Inr item \<and> parentList l' = parentList l"
  by (auto simp: addExisting_def get_def set_entries_def map_of_map_set split: if_splits)

text \<open>
  C9, as stated, fails in the value-type namespace: there \<^verbatim>\<open>add\<close> throws
  \<^verbatim>\<open>"Not supported"\<close> from its factory although the name is in no map at all.
\<close>

theorem add_fails_on_absent_value_type_name:
  "map_of (entries (valueTypeDefs (new_SsDefinitions None None))) ''X'' = None
   \<and> add valueTypeDef_newFunction (valueTypeDefs (new_SsDefinitions None None)) ''X''
       = Inl NotSupported"
  by (simp add: new_SsDefinitions_def add_def valueTypeDef_newFunction_def Let_def)

text \<open>
  C9, amended: \<^verbatim>\<open>add\<close> fails exactly when the name is in the local map or the factory of
  the namespace throws; the factories of the struct, attribute and element namespaces
  never throw, so there \<^verbatim>\<open>add\<close> fails exactly when the name is in the local map, and
  the factory of the value-type namespace always throws, so there \<^verbatim>\<open>add\<close> always fails
  and \<^verbatim>\<open>addExisting\<close>, which enters the enum types, fails exactly when the name is in
  the local map. What the parent chain defines never makes either fail. After a
  successful \<^verbatim>\<open>add\<close> or \<^verbatim>\<open>addExisting\<close> of a name, a lookup of the name from that scope
  returns the entity just added, whatever the ancestors define under the name, and the
  parent chain is unchanged. A lookup of a name that is not in the local map is the lookup
  of the name in the parent, and fails when there is no parent.
\<close>

theorem definitionList_add_and_lookup:
  "isl (add f l n) = (map_of (entries l) n \<noteq> None \<or> isl (f n))
   \<and> isl (add structDef_newFunction ls n) = (map_of (entries ls) n \<noteq> None)
   \<and> isl (add attributeDef_newFunction la n) = (map_of (entries la) n \<noteq> None)
   \<and> isl (add elementDef_newFunction le n) = (map_of (entries le) n \<noteq> None)
   \<and> isl (add valueTypeDef_newFunction lv n)
   \<and> isl (addExisting l n item) = (map_of (entries l) n \<noteq> None)
   \<and> (add f l n = Inr (item, l') \<longrightarrow>
        getOrNull l' n = Some item \<and> get l' n = Inr item \<and> parentList l' = parentList l)
   \<and> (addExisting l n item = Inr (item, l') \<longrightarrow>
        getOrNull l' n = Some item \<and> get l' n = Inr item \<and> parentList l' = parentList l)
   \<and> (map_of (entries l) n = None \<longrightarrow>
        getOrNull l n = (case parentList l of None \<Rightarrow> None | Some p \<Rightarrow> getOrNull p n)
        \<and> has l n = (case parentList l of None \<Rightarrow> False | Some p \<Rightarrow> has p n))"
proof -
  have 1: "isl (add structDef_newFunction ls n) = (map_of (entries ls) n \<noteq> None)"
    by (simp add: add_fails_iff structDef_newFunction_def)
  have 2: "isl (add attributeDef_newFunction la n) = (map_of (entries la) n \<noteq> None)"
    by (simp add: add_fails_iff attributeDef_newFunction_def)
  have 3: "isl (add elementDef_newFunction le n) = (map_of (entries le) n \<noteq> None)"
    by (simp add: add_fails_iff elementDef_newFunction_def)
  have 4: "isl (add valueTypeDef_newFunction lv n)"
    by (simp add: add_fails_iff valueTypeDef_newFunction_def)
  show ?thesis
    using 1 2 3 4 add_fails_iff [of f l n] addExisting_fails_iff [of l n item]
      add_shadows [of f l n item l'] addExisting_shadows [of l n item item l']
      getOrNull_parent [of l n] has_parent [of l n]
    by blast
qed

text \<open>
  Shadowing at work: \<open>X\<close> is visible from the nested scope through the parent, adding
  \<open>X\<close> to the nested scope succeeds, and the lookup then returns the new, empty struct.
\<close>

theorem definitionList_add_and_lookup_witness:
  "map_of (entries inner_structs) ''X'' = None
   \<and> getOrNull inner_structs ''X'' = Some \<lparr>sd_name = ''X'', sd_values = [point_x]\<rparr>
   \<and> \<not> isl (add structDef_newFunction inner_structs ''X'')
   \<and> add structDef_newFunction inner_structs ''X''
       = Inr (new_SsStructDef ''X'', set_entries inner_structs [(''X'', new_SsStructDef ''X'')])
   \<and> getOrNull (set_entries inner_structs [(''X'', new_SsStructDef ''X'')]) ''X''
       = Some (new_SsStructDef ''X'')"
proof -
  have a: "add structDef_newFunction inner_structs ''X''
       = Inr (new_SsStructDef ''X'', set_entries inner_structs [(''X'', new_SsStructDef ''X'')])"
    by (simp add: add_def structDef_newFunction_def inner_structs_def map_set_def)
  have m: "map_of (entries inner_structs) ''X'' = None"
    by (simp add: inner_structs_def)
  show ?thesis
    using a m definitionList_add_and_lookup
      [where f = structDef_newFunction and l = inner_structs and n = "''X''"
         and ls = inner_structs and item = "new_SsStructDef ''X''"
         and l' = "set_entries inner_structs [(''X'', new_SsStructDef ''X'')]"]
    by (simp add: inner_structs_def outer_structs_def)
qed

section \<open>The values accessors return a copy\<close>

lemma alloc_fresh:
  assumes "r < length h"
  shows "(case alloc h (h ! r) of (a, h1) \<Rightarrow>
           a \<noteq> r \<and> h1 ! a = h ! r \<and> (h1[a := ys]) ! r = h ! r \<and> r < length (h1[a := ys])
           \<and> (case alloc (h1[a := ys]) ((h1[a := ys]) ! r) of (a', h2) \<Rightarrow> h2 ! a' = h ! r))"
  using assms by (simp add: alloc_def nth_append)

text \<open>
  C10: the accessor \<^verbatim>\<open>values\<close> of an enum type definition and of a struct definition
  returns a new array with the stored elements. Whatever is done to the returned array
  (its contents become any \<open>ys\<close>), the array \<^verbatim>\<open>_values\<close> of the definition is unchanged, a
  second call of \<^verbatim>\<open>values\<close> returns the contents the first call returned, and for a struct
  \<^verbatim>\<open>hasOptional\<close> is what it was. The definition is any object of the heap (its array
  \<^verbatim>\<open>_values\<close> has been allocated).
\<close>

theorem values_returns_fresh_copy:
  "(eo_values e < length hs \<longrightarrow>
      (case SsEnumTypeDef_values hs e of (a, h1) \<Rightarrow>
         a \<noteq> eo_values e \<and> h1 ! a = hs ! eo_values e
         \<and> (h1[a := ys]) ! eo_values e = hs ! eo_values e
         \<and> (case SsEnumTypeDef_values (h1[a := ys]) e of (a', h2) \<Rightarrow> h2 ! a' = hs ! eo_values e)))
   \<and> (so_values d < length h \<longrightarrow>
      (case SsStructDef_values h d of (a, h1) \<Rightarrow>
         a \<noteq> so_values d \<and> h1 ! a = h ! so_values d
         \<and> (h1[a := zs]) ! so_values d = h ! so_values d
         \<and> (case SsStructDef_values (h1[a := zs]) d of (a', h2) \<Rightarrow> h2 ! a' = h ! so_values d)
         \<and> SsStructDef_hasOptional (h1[a := zs]) d = SsStructDef_hasOptional h d))"
proof -
  have 1: "eo_values e < length hs \<longrightarrow>
      (case SsEnumTypeDef_values hs e of (a, h1) \<Rightarrow>
         a \<noteq> eo_values e \<and> h1 ! a = hs ! eo_values e
         \<and> (h1[a := ys]) ! eo_values e = hs ! eo_values e
         \<and> (case SsEnumTypeDef_values (h1[a := ys]) e of (a', h2) \<Rightarrow> h2 ! a' = hs ! eo_values e))"
    using alloc_fresh [of "eo_values e" hs ys]
    by (auto simp: SsEnumTypeDef_values_def split: prod.splits)
  have 2: "so_values d < length h \<longrightarrow>
      (case SsStructDef_values h d of (a, h1) \<Rightarrow>
         a \<noteq> so_values d \<and> h1 ! a = h ! so_values d
         \<and> (h1[a := zs]) ! so_values d = h ! so_values d
         \<and> (case SsStructDef_values (h1[a := zs]) d of (a', h2) \<Rightarrow> h2 ! a' = h ! so_values d)
         \<and> SsStructDef_hasOptional (h1[a := zs]) d = SsStructDef_hasOptional h d)"
    using alloc_fresh [of "so_values d" h zs]
    by (auto simp: SsStructDef_values_def SsStructDef_hasOptional_def structDef_of_def
        split: prod.splits)
  from 1 2 show ?thesis ..
qed

text \<open>
  On a heap that holds the labels of \<open>Color\<close> and the values of \<open>Point\<close>: the caller
  empties the array it was given, and the definitions still hold their values.
\<close>

theorem values_returns_fresh_copy_witness:
  "eo_values \<lparr>eo_name = ''Color'', eo_values = 0\<rparr> < length [[''Red'', ''Green'']]
   \<and> SsEnumTypeDef_values [[''Red'', ''Green'']] \<lparr>eo_name = ''Color'', eo_values = 0\<rparr>
       = (1, [[''Red'', ''Green''], [''Red'', ''Green'']])
   \<and> SsEnumTypeDef_values ([[''Red'', ''Green''], [''Red'', ''Green'']][1 := []])
        \<lparr>eo_name = ''Color'', eo_values = 0\<rparr>
       = (2, [[''Red'', ''Green''], [], [''Red'', ''Green'']])
   \<and> so_values \<lparr>so_name = ''Point'', so_values = 0\<rparr> < length [[point_x, point_color]]
   \<and> SsStructDef_hasOptional ([[point_x, point_color], [point_x, point_color]][1 := []])
        \<lparr>so_name = ''Point'', so_values = 0\<rparr>
   \<and> SsStructDef_hasOptional [[point_x, point_color]] \<lparr>so_name = ''Point'', so_values = 0\<rparr>"
  using values_returns_fresh_copy
    [of "\<lparr>eo_name = ''Color'', eo_values = 0\<rparr>" "[[''Red'', ''Green'']]" "[]"
        "\<lparr>so_name = ''Point'', so_values = 0\<rparr>" "[[point_x, point_color]]" "[]"]
  by (simp add: SsEnumTypeDef_values_def SsStructDef_values_def alloc_def
      SsStructDef_hasOptional_def structDef_of_def hasOptional_def point_x_def point_color_def)

section \<open>The name allocator\<close>

lemma digit_inj: "a < 10 \<Longrightarrow> b < 10 \<Longrightarrow> ''0123456789'' ! a = ''0123456789'' ! b \<Longrightarrow> a = b"
proof -
  assume a: "a < 10" and b: "b < 10" and e: "''0123456789'' ! a = ''0123456789'' ! b"
  have d: "distinct ''0123456789''" by simp
  have "length ''0123456789'' = 10" by simp
  with a b d e show "a = b" by (simp add: nth_eq_iff_index_eq)
qed

lemma natToString_nonempty: "natToString n \<noteq> []"
  by (subst natToString.simps) simp

lemma natToString_inj: "natToString a = natToString b \<Longrightarrow> a = b"
proof (induction a arbitrary: b rule: natToString.induct)
  case (1 n)
  show ?case
  proof (cases "n < 10")
    case True
    then have n: "natToString n = [''0123456789'' ! n]" by (subst natToString.simps) simp
    show ?thesis
    proof (cases "b < 10")
      case b: True
      then have "natToString b = [''0123456789'' ! b]" by (subst natToString.simps) simp
      with n "1.prems" have "''0123456789'' ! n = ''0123456789'' ! b" by simp
      with True b show ?thesis by (rule digit_inj)
    next
      case b: False
      then have "natToString b = natToString (b div 10) @ [''0123456789'' ! (b mod 10)]"
        by (subst natToString.simps) simp
      with n "1.prems" have "natToString (b div 10) = []" by simp
      then show ?thesis by (simp add: natToString_nonempty)
    qed
  next
    case False
    then have n: "natToString n = natToString (n div 10) @ [''0123456789'' ! (n mod 10)]"
      by (subst natToString.simps) simp
    show ?thesis
    proof (cases "b < 10")
      case b: True
      then have "natToString b = [''0123456789'' ! b]" by (subst natToString.simps) simp
      with n "1.prems" have "natToString (n div 10) = []" by simp
      then show ?thesis by (simp add: natToString_nonempty)
    next
      case b: False
      then have "natToString b = natToString (b div 10) @ [''0123456789'' ! (b mod 10)]"
        by (subst natToString.simps) simp
      with n "1.prems" have e1: "natToString (n div 10) = natToString (b div 10)"
        and e2: "''0123456789'' ! (n mod 10) = ''0123456789'' ! (b mod 10)" by simp_all
      from e1 have d: "n div 10 = b div 10" using False by (rule "1.IH"[rotated])
      have "n mod 10 = b mod 10" by (rule digit_inj[OF _ _ e2]) simp_all
      with d show ?thesis by (metis div_mult_mod_eq)
    qed
  qed
qed

lemma loop_found:
  "i \<le> j \<Longrightarrow> j < 100 \<Longrightarrow> (\<forall>m. i \<le> m \<and> m < j \<longrightarrow> name @ natToString m \<in> set ns) \<Longrightarrow>
   name @ natToString j \<notin> set ns \<Longrightarrow> generateName_loop ns name i = Inr (name @ natToString j)"
proof (induction "j - i" arbitrary: i)
  case 0
  then have "i = j" by simp
  with 0 show ?case by (subst generateName_loop.simps) simp
next
  case (Suc d)
  then have lt: "i < j" by simp
  then have "name @ natToString i \<in> set ns" using Suc.prems by simp
  moreover have "generateName_loop ns name (i + 1) = Inr (name @ natToString j)"
    using Suc lt by (intro Suc.hyps(1)) auto
  ultimately show ?case using lt Suc.prems(2) by (subst generateName_loop.simps) simp
qed

lemma loop_exhausted:
  "i \<le> 100 \<Longrightarrow> (\<forall>m. i \<le> m \<and> m < 100 \<longrightarrow> name @ natToString m \<in> set ns) \<Longrightarrow>
   generateName_loop ns name i = Inl TooManyIdenticalNames"
proof (induction "100 - i" arbitrary: i)
  case 0
  then show ?case by (subst generateName_loop.simps) simp
next
  case (Suc d)
  then have lt: "i < 100" by simp
  then have "name @ natToString i \<in> set ns" using Suc.prems by simp
  moreover have "generateName_loop ns name (i + 1) = Inl TooManyIdenticalNames"
    using Suc lt by (intro Suc.hyps(1)) auto
  ultimately show ?case using lt by (subst generateName_loop.simps) simp
qed

lemma length_candidates: "length (candidates name) = 99"
  by (simp add: candidates_def del: upt_rec_numeral)

lemma set_candidates:
  "set (candidates name) = insert name ((\<lambda>i. name @ natToString i) ` {2 ..< 100})"
  by (simp add: candidates_def del: upt_rec_numeral)

lemma distinct_candidates: "distinct (candidates name)"
proof -
  have "inj_on (\<lambda>i. name @ natToString i) (set [2 ..< 100])"
    by (rule inj_onI) (simp add: natToString_inj del: upt_rec_numeral)
  then have "distinct (map (\<lambda>i. name @ natToString i) [2 ..< 100])"
    by (simp add: distinct_map del: upt_rec_numeral)
  moreover have "name \<notin> set (map (\<lambda>i. name @ natToString i) [2 ..< 100])"
    by (auto simp: natToString_nonempty simp del: upt_rec_numeral)
  ultimately show ?thesis by (simp add: candidates_def del: upt_rec_numeral)
qed

lemma take_candidates:
  "1 \<le> k \<Longrightarrow> k \<le> 99 \<Longrightarrow> take k (candidates name) = name # map (\<lambda>i. name @ natToString i) [2 ..< k + 1]"
proof -
  assume k: "1 \<le> k" "k \<le> 99"
  then obtain k' where k': "k = Suc k'" by (cases k) auto
  have "take k' [2 ..< 100] = [2 ..< 2 + k']" using k k' by (simp add: take_upt del: upt_rec_numeral)
  then show ?thesis using k' by (simp add: candidates_def take_map del: upt_rec_numeral)
qed

lemma nth_candidates:
  "1 \<le> k \<Longrightarrow> k < 99 \<Longrightarrow> candidates name ! k = name @ natToString (k + 1)"
proof -
  assume k: "1 \<le> k" "k < 99"
  then obtain k' where k': "k = Suc k'" by (cases k) auto
  then have "[2 ..< 100] ! k' = 2 + k'" using k by (simp del: upt_rec_numeral)
  then show ?thesis using k k' by (simp add: candidates_def del: upt_rec_numeral)
qed

lemma generateName_next:
  assumes ne: "base \<noteq> []" and k: "k < 99"
    and ns: "names lk = take k (candidates (getIdentifier base (startUpperCase lk)))"
  shows "generateName lk base = Inr (candidates (getIdentifier base (startUpperCase lk)) ! k)"
proof (cases "k = 0")
  case True
  then show ?thesis using ne ns by (simp add: generateName_def candidates_def del: upt_rec_numeral)
next
  case False
  let ?n = "getIdentifier base (startUpperCase lk)"
  from False k have k1: "1 \<le> k" "k \<le> 99" by simp_all
  have nm: "names lk = ?n # map (\<lambda>i. ?n @ natToString i) [2 ..< k + 1]"
    using ns take_candidates[OF k1] by simp
  have a: "\<forall>m. 2 \<le> m \<and> m < k + 1 \<longrightarrow> ?n @ natToString m \<in> set (names lk)"
  proof (intro allI impI)
    fix m
    assume "2 \<le> m \<and> m < k + 1"
    then have "m \<in> {2 ..< k + 1}" by simp
    then show "?n @ natToString m \<in> set (names lk)"
      unfolding nm set_simps set_map set_upt by blast
  qed
  have b: "?n @ natToString (k + 1) \<notin> set (names lk)"
  proof
    assume "?n @ natToString (k + 1) \<in> set (names lk)"
    then have "?n @ natToString (k + 1) = ?n \<or> (\<exists>m \<in> {2 ..< k + 1}. ?n @ natToString (k + 1) = ?n @ natToString m)"
      unfolding nm by auto
    then show False
    proof
      assume "?n @ natToString (k + 1) = ?n"
      then show False by (simp add: natToString_nonempty)
    next
      assume "\<exists>m \<in> {2 ..< k + 1}. ?n @ natToString (k + 1) = ?n @ natToString m"
      then obtain m where m: "m < k + 1" and "natToString (k + 1) = natToString m" by auto
      then have "k + 1 = m" by (intro natToString_inj)
      with m show False by simp
    qed
  qed
  have "generateName_loop (names lk) ?n 2 = Inr (?n @ natToString (k + 1))"
    by (rule loop_found) (use k1 k a b in auto)
  moreover have "?n \<in> set (names lk)" by (simp add: nm)
  ultimately show ?thesis using ne k1 k False by (simp add: generateName_def nth_candidates)
qed

lemma generateName_exhausted:
  assumes ne: "base \<noteq> []"
    and ns: "names lk = candidates (getIdentifier base (startUpperCase lk))"
  shows "generateName lk base = Inl TooManyIdenticalNames"
proof -
  let ?n = "getIdentifier base (startUpperCase lk)"
  have a: "\<forall>m. 2 \<le> m \<and> m < 100 \<longrightarrow> ?n @ natToString m \<in> set (names lk)"
    by (simp add: ns set_candidates)
  have "generateName_loop (names lk) ?n 2 = Inl TooManyIdenticalNames"
    by (rule loop_exhausted) (use a in auto)
  moreover have "?n \<in> set (names lk)" by (simp add: ns set_candidates)
  ultimately show ?thesis using ne by (simp add: generateName_def)
qed

lemma allocate_next:
  assumes ne: "base \<noteq> []" and k: "k < 99"
    and ns: "names lk = take k (candidates (getIdentifier base (startUpperCase lk)))"
  shows "\<exists>lk1. allocate lk base source mapped = Inr (candidates (getIdentifier base (startUpperCase lk)) ! k, lk1)
     \<and> names lk1 = take (Suc k) (candidates (getIdentifier base (startUpperCase lk)))
     \<and> startUpperCase lk1 = startUpperCase lk"
proof -
  let ?c = "candidates (getIdentifier base (startUpperCase lk))"
  have g: "generateName lk base = Inr (?c ! k)" using ne k ns by (rule generateName_next)
  have "distinct (take (Suc k) ?c)" by (simp add: distinct_candidates)
  moreover have t: "take (Suc k) ?c = take k ?c @ [?c ! k]"
    using k by (simp add: take_Suc_conv_app_nth length_candidates)
  ultimately have "?c ! k \<notin> set (names lk)" by (simp add: ns)
  then show ?thesis using g t by (simp add: allocate_def TsLookup_add_def ns)
qed

lemma allocations_many:
  "base \<noteq> [] \<Longrightarrow> k + length srcs \<le> 99 \<Longrightarrow>
   names lk = take k (candidates (getIdentifier base (startUpperCase lk))) \<Longrightarrow>
   \<exists>lk'. allocations lk base srcs
           = Inr (take (length srcs) (drop k (candidates (getIdentifier base (startUpperCase lk)))), lk')
        \<and> names lk' = take (k + length srcs) (candidates (getIdentifier base (startUpperCase lk)))
        \<and> startUpperCase lk' = startUpperCase lk"
proof (induction srcs arbitrary: lk k)
  case Nil
  then show ?case by simp
next
  case (Cons sm srcs)
  let ?c = "candidates (getIdentifier base (startUpperCase lk))"
  obtain source mapped where sm: "sm = (source, mapped)" by (cases sm)
  from Cons.prems have k: "k < 99" by simp
  from allocate_next[OF Cons.prems(1) k Cons.prems(3), of source mapped]
  obtain lk1 where a: "allocate lk base source mapped = Inr (?c ! k, lk1)"
    and n1: "names lk1 = take (Suc k) ?c" and u1: "startUpperCase lk1 = startUpperCase lk"
    by blast
  have "\<exists>lk'. allocations lk1 base srcs
           = Inr (take (length srcs) (drop (Suc k) (candidates (getIdentifier base (startUpperCase lk1)))), lk')
        \<and> names lk' = take (Suc k + length srcs) (candidates (getIdentifier base (startUpperCase lk1)))
        \<and> startUpperCase lk' = startUpperCase lk1"
    by (rule Cons.IH) (use Cons.prems n1 u1 in auto)
  then obtain lk' where r: "allocations lk1 base srcs = Inr (take (length srcs) (drop (Suc k) ?c), lk')"
    and n': "names lk' = take (Suc k + length srcs) ?c" and u': "startUpperCase lk' = startUpperCase lk"
    using u1 by auto
  have "take (length (sm # srcs)) (drop k ?c) = ?c ! k # take (length srcs) (drop (Suc k) ?c)"
    using k by (simp add: length_candidates Cons_nth_drop_Suc[symmetric])
  then show ?case using a r n' u' sm by simp
qed

lemma allocations_append:
  "allocations lk base (xs @ ys) =
     (case allocations lk base xs of
        Inl e \<Rightarrow> Inl e
      | Inr (ns, lk1) \<Rightarrow>
          (case allocations lk1 base ys of
             Inl e \<Rightarrow> Inl e
           | Inr (ms, lk2) \<Rightarrow> Inr (ns @ ms, lk2)))"
  by (induction xs arbitrary: lk) (auto split: sum.splits prod.splits)

lemma generateName_loop_unused:
  "generateName_loop ns name i = Inr x \<Longrightarrow> x \<notin> set ns"
proof (induction ns name i rule: generateName_loop.induct)
  case (1 ns name i)
  show ?case
  proof (cases "i < 100")
    case lt: True
    show ?thesis
    proof (cases "name @ natToString i \<notin> set ns")
      case True
      with lt have "generateName_loop ns name i = Inr (name @ natToString i)"
        by (subst generateName_loop.simps) simp
      with "1.prems" True show ?thesis by simp
    next
      case False
      with lt have "generateName_loop ns name i = generateName_loop ns name (i + 1)"
        by (subst generateName_loop.simps) simp
      with "1.prems" have "generateName_loop ns name (i + 1) = Inr x" by simp
      with lt False show ?thesis by (intro "1.IH" [OF lt refl]) simp_all
    qed
  next
    case False
    then have "generateName_loop ns name i = Inl TooManyIdenticalNames"
      by (subst generateName_loop.simps) simp
    with "1.prems" show ?thesis by simp
  qed
qed

lemma generateName_unused: "generateName lk b = Inr x \<Longrightarrow> x \<notin> set (names lk)"
proof -
  assume g: "generateName lk b = Inr x"
  show ?thesis
  proof (cases "getIdentifier b (startUpperCase lk) \<notin> set (names lk)")
    case True
    with g show ?thesis by (simp add: generateName_def Let_def split: if_splits)
  next
    case False
    with g have "generateName_loop (names lk) (getIdentifier b (startUpperCase lk)) 2 = Inr x"
      by (simp add: generateName_def Let_def split: if_splits)
    then show ?thesis by (rule generateName_loop_unused)
  qed
qed

text \<open>
  C8: for a base name (a non-empty string; \<^verbatim>\<open>generateName\<close> rejects the empty one) and
  a new allocator, up to 99 allocations of the base name (\<^verbatim>\<open>generateName\<close>, then \<^verbatim>\<open>add\<close>
  under the name returned) all succeed. The names returned are, in this order, the
  normalized base name and then the name with the suffixes 2, 3, ... up to 99: the first
  entries of \<open>candidates\<close>, which are pairwise distinct. With 100 allocations or more the
  sequence fails, at the 100th, with \<^verbatim>\<open>"Too many identical names"\<close>. In any state of an
  allocator and for any name, a name that \<^verbatim>\<open>generateName\<close> returns is none of the names
  registered before.
\<close>

theorem allocations_of_one_base_name:
  assumes ne: "base \<noteq> []"
  shows "(length srcs \<le> 99 \<longrightarrow>
           (\<exists>lk'. allocations (new_TsLookup up) base srcs
                    = Inr (take (length srcs) (candidates (getIdentifier base up)), lk'))
           \<and> distinct (take (length srcs) (candidates (getIdentifier base up))))
       \<and> (100 \<le> length srcs \<longrightarrow>
            allocations (new_TsLookup up) base srcs = Inl TooManyIdenticalNames)
       \<and> (generateName lk b = Inr x \<longrightarrow> x \<notin> set (names lk))"
proof -
  let ?lk = "new_TsLookup up :: ('a, 'b) TsLookup"
  let ?c = "candidates (getIdentifier base up)"
  have up: "startUpperCase ?lk = up"
    and n0: "names ?lk = take 0 (candidates (getIdentifier base (startUpperCase ?lk)))"
    by (simp_all add: new_TsLookup_def)
  have many: "\<exists>lk'. allocations ?lk base xs = Inr (take (length xs) ?c, lk')
      \<and> names lk' = take (length xs) ?c \<and> startUpperCase lk' = up"
    if "length xs \<le> 99" for xs :: "('a \<times> 'b) list"
    using allocations_many [OF ne _ n0, of xs] that up by simp
  have 1: "length srcs \<le> 99 \<longrightarrow>
           (\<exists>lk'. allocations ?lk base srcs = Inr (take (length srcs) ?c, lk'))
           \<and> distinct (take (length srcs) ?c)"
    using many [of srcs] by (auto simp: distinct_candidates)
  have 2: "100 \<le> length srcs \<longrightarrow> allocations ?lk base srcs = Inl TooManyIdenticalNames"
  proof
    assume l: "100 \<le> length srcs"
    let ?xs = "take 99 srcs" and ?ys = "drop 99 srcs"
    have lx: "length ?xs = 99" using l by simp
    from l have "?ys \<noteq> []" by simp
    then obtain source mapped rest where ys: "?ys = (source, mapped) # rest"
      by (cases ?ys) auto
    from many [of ?xs] lx obtain lk' where a: "allocations ?lk base ?xs = Inr (take 99 ?c, lk')"
      and n: "names lk' = take 99 ?c" and u: "startUpperCase lk' = up" by auto
    have "names lk' = candidates (getIdentifier base (startUpperCase lk'))"
      using n u by (simp add: length_candidates)
    with ne have "generateName lk' base = Inl TooManyIdenticalNames"
      by (rule generateName_exhausted)
    then have f: "allocations lk' base ?ys = Inl TooManyIdenticalNames"
      by (simp add: ys allocate_def)
    have "allocations ?lk base srcs =
        (case allocations ?lk base ?xs of
           Inl e \<Rightarrow> Inl e
         | Inr (ns, lk1) \<Rightarrow>
             (case allocations lk1 base ?ys of
                Inl e \<Rightarrow> Inl e
              | Inr (ms, lk2) \<Rightarrow> Inr (ns @ ms, lk2)))"
      using allocations_append [of ?lk base ?xs ?ys] by (simp only: append_take_drop_id)
    with a f show "allocations ?lk base srcs = Inl TooManyIdenticalNames" by simp
  qed
  have 3: "generateName lk b = Inr x \<longrightarrow> x \<notin> set (names lk)"
    by (rule impI) (rule generateName_unused)
  from 1 2 3 show ?thesis by blast
qed

lemma natToString_2_3: "natToString 2 = ''2''" "natToString 3 = ''3''"
  by (subst natToString.simps, simp)+

lemma getIdentifier_item: "getIdentifier ''item'' True = ''Item''"
  by (simp add: getIdentifier_def substring_def substring_from_def toUpperCase_def
      toUpperCase_char_def keywords_list_def)

text \<open>Three allocations of \<open>item\<close> in an allocator of type names: \<open>Item\<close>, \<open>Item2\<close>, \<open>Item3\<close>.\<close>

theorem allocations_of_one_base_name_witness:
  "''item'' \<noteq> []
   \<and> length three_sources \<le> 99
   \<and> (\<exists>lk'. allocations (new_TsLookup True) ''item'' three_sources
              = Inr ([''Item'', ''Item2'', ''Item3''], lk'))
   \<and> distinct [''Item'', ''Item2'', ''Item3'']"
proof -
  have ne: "''item'' \<noteq> []" by simp
  have len: "length three_sources = 3" by (simp add: three_sources_def)
  then have le: "length three_sources \<le> 99" by simp
  have c1: "take 3 (candidates ''Item'')
      = ''Item'' # map (\<lambda>i. ''Item'' @ natToString i) [2 ..< 3 + 1]"
    by (rule take_candidates) simp_all
  have c2: "[2 ..< 3 + 1] = [2, 3::nat]" by simp
  have c: "take 3 (candidates ''Item'') = [''Item'', ''Item2'', ''Item3'']"
    unfolding c1 c2 by (simp add: natToString_2_3)
  have "(\<exists>lk'. allocations (new_TsLookup True) ''item'' three_sources
            = Inr (take (length three_sources) (candidates (getIdentifier ''item'' True)), lk'))
        \<and> distinct (take (length three_sources) (candidates (getIdentifier ''item'' True)))"
    by (rule mp [OF conjunct1 [OF allocations_of_one_base_name [OF ne, of three_sources True]] le])
  then have "(\<exists>lk'. allocations (new_TsLookup True) ''item'' three_sources
            = Inr ([''Item'', ''Item2'', ''Item3''], lk'))
        \<and> distinct [''Item'', ''Item2'', ''Item3'']"
    unfolding len getIdentifier_item c .
  with ne le show ?thesis by blast
qed

section \<open>Numbers and their decimal text\<close>

lemma natToString_less_10: "n < 10 \<Longrightarrow> natToString n = [''0123456789'' ! n]"
  by (subst natToString.simps) simp

lemma natToString_ge_10:
  "\<not> n < 10 \<Longrightarrow> natToString n = natToString (n div 10) @ [''0123456789'' ! (n mod 10)]"
  by (subst natToString.simps) simp

lemma digit_char_in: "k < 10 \<Longrightarrow> ''0123456789'' ! k \<in> set ''0123456789''"
  by (rule nth_mem) simp

lemma natToString_digits: "set (natToString n) \<subseteq> set ''0123456789''"
proof (induction n rule: natToString.induct)
  case (1 n)
  show ?case
  proof (cases "n < 10")
    case True
    then show ?thesis using digit_char_in [of n] by (simp add: natToString_less_10)
  next
    case False
    have "n mod 10 < 10" by simp
    then have "''0123456789'' ! (n mod 10) \<in> set ''0123456789''" by (rule digit_char_in)
    then show ?thesis using "1.IH" [OF False] False by (simp add: natToString_ge_10)
  qed
qed

lemma digitValue_table:
  "list_all (\<lambda>k. digitValue (''0123456789'' ! k) = Some k) [0 ..< 10]"
  by code_simp

lemma digitValue_digit: "k < 10 \<Longrightarrow> digitValue (''0123456789'' ! k) = Some k"
  using digitValue_table unfolding list_all_iff set_upt by simp

lemma digitsValue_snoc:
  "digitsValue r (ds @ [c]) = digitsValue r ds * r + (case digitValue c of Some d \<Rightarrow> d | None \<Rightarrow> 0)"
  by (simp add: digitsValue_def)

lemma digitsValue_natToString: "digitsValue 10 (natToString n) = n"
proof (induction n rule: natToString.induct)
  case (1 n)
  show ?case
  proof (cases "n < 10")
    case True
    then show ?thesis
      by (simp add: natToString_less_10 digitsValue_def digitValue_digit)
  next
    case False
    have "digitValue (''0123456789'' ! (n mod 10)) = Some (n mod 10)"
      by (rule digitValue_digit) simp
    then show ?thesis
      using "1.IH" [OF False] False by (simp add: natToString_ge_10 digitsValue_snoc)
  qed
qed

lemma decimal_table:
  "list_all (\<lambda>c. isDigitOf 10 c \<and> \<not> isWhiteSpace c \<and> c \<noteq> CHR ''-'' \<and> c \<noteq> CHR ''+''
       \<and> toLowerCase_char c \<noteq> CHR ''x'' \<and> toUpperCase_char c \<noteq> CHR ''N'' \<and> c \<noteq> CHR ''.'')
     ''0123456789''"
  by code_simp

lemma decimal_char:
  assumes "c \<in> set ''0123456789''"
  shows "isDigitOf 10 c" "\<not> isWhiteSpace c" "c \<noteq> CHR ''-''" "c \<noteq> CHR ''+''"
    "toLowerCase_char c \<noteq> CHR ''x''" "toUpperCase_char c \<noteq> CHR ''N''" "c \<noteq> CHR ''.''"
  using decimal_table assms unfolding list_all_iff by blast+

lemma natToString_not_Nil: "natToString n \<noteq> []"
  by (subst natToString.simps) simp

lemma parseInt_decimal:
  assumes ds: "set ds \<subseteq> set ''0123456789''" and ne: "ds \<noteq> []"
  shows "parseInt ds = Num (int (digitsValue 10 ds))"
    and "parseInt (''-'' @ ds) = Num (- int (digitsValue 10 ds))"
proof -
  obtain c cs where c: "ds = c # cs" using ne by (cases ds) auto
  with ds have cin: "c \<in> set ''0123456789''" and csin: "set cs \<subseteq> set ''0123456789''" by auto
  have "\<forall>x \<in> set ds. isDigitOf 10 x" using ds decimal_char(1) by blast
  then have all: "takeWhile (isDigitOf 10) ds = ds" by (simp only: takeWhile_eq_all_conv)
  have nw: "\<not> isWhiteSpace c" using cin by (rule decimal_char)
  have nsign: "c \<noteq> CHR ''-''" "c \<noteq> CHR ''+''" using cin by (rule decimal_char)+
  have nhex: "toLowerCase (take 2 ds) \<noteq> ''0x''"
  proof (cases cs)
    case Nil
    then show ?thesis by (simp add: c toLowerCase_def)
  next
    case (Cons c2 cs2)
    with csin have "c2 \<in> set ''0123456789''" by auto
    then have "toLowerCase_char c2 \<noteq> CHR ''x''" by (rule decimal_char)
    then show ?thesis by (simp add: c Cons toLowerCase_def)
  qed
  have d1: "dropWhile isWhiteSpace ds = ds" using nw by (simp add: c)
  have s1: "\<not> startsWith ds ''-''" "\<not> startsWith ds ''+''"
    using nsign by (simp_all add: c startsWith_def)
  show "parseInt ds = Num (int (digitsValue 10 ds))"
    unfolding parseInt_def Let_def d1 using s1 nhex ne by (simp add: all)
  have d2: "dropWhile isWhiteSpace (''-'' @ ds) = ''-'' @ ds"
    by (simp add: isWhiteSpace_def)
  have s2: "startsWith (''-'' @ ds) ''-''" by (simp add: startsWith_def)
  have t2: "drop 1 (''-'' @ ds) = ds" by simp
  show "parseInt (''-'' @ ds) = Num (- int (digitsValue 10 ds))"
    unfolding parseInt_def Let_def d2 using s2 nhex ne by (simp only: t2 all if_True if_False simp_thms)
qed

lemma parseInt_NaN: "parseInt ''NaN'' = NaN"
  by code_simp

lemma parseInt_numberToString: "parseInt (numberToString x) = x"
proof (cases x)
  case NaN
  show ?thesis unfolding NaN by (simp add: numberToString_def parseInt_NaN)
next
  case (Num i)
  have d: "set (natToString n) \<subseteq> set ''0123456789''" for n by (rule natToString_digits)
  show ?thesis
  proof (cases "i < 0")
    case True
    have "parseInt (''-'' @ natToString (nat (- i)))
            = Num (- int (digitsValue 10 (natToString (nat (- i)))))"
      using d natToString_not_Nil by (rule parseInt_decimal)
    then show ?thesis using True by (simp add: Num numberToString_def digitsValue_natToString)
  next
    case False
    have "parseInt (natToString (nat i)) = Num (int (digitsValue 10 (natToString (nat i))))"
      using d natToString_not_Nil by (rule parseInt_decimal)
    then show ?thesis using False by (simp add: Num numberToString_def digitsValue_natToString)
  qed
qed

lemma numberToString_no_dot: "CHR ''.'' \<notin> set (numberToString x)"
proof (cases x)
  case NaN
  then show ?thesis by (simp add: numberToString_def)
next
  case (Num i)
  have "CHR ''.'' \<notin> set (natToString n)" for n
    using natToString_digits [of n] decimal_char(7) by blast
  then show ?thesis by (simp add: Num numberToString_def)
qed

lemma numberToString_not_Nil: "numberToString x \<noteq> []"
  by (cases x) (simp_all add: numberToString_def natToString_not_Nil)

lemma numberToString_not_N: "toUpperCase (numberToString x) \<noteq> ''N''"
proof (cases x)
  case NaN
  then show ?thesis by (simp add: numberToString_def toUpperCase_def)
next
  case (Num i)
  have d: "toUpperCase (natToString n) \<noteq> ''N''" for n
  proof
    assume a: "toUpperCase (natToString n) = ''N''"
    then have "length (map toUpperCase_char (natToString n)) = length ''N''"
      by (simp only: toUpperCase_def)
    then have "length (natToString n) = 1" by simp
    then obtain c where c: "natToString n = [c]" by (cases "natToString n") auto
    then have "c \<in> set ''0123456789''" using natToString_digits [of n] by simp
    then have "toUpperCase_char c \<noteq> CHR ''N''" by (rule decimal_char)
    with a c show False by (simp add: toUpperCase_def)
  qed
  show ?thesis
  proof (cases "i < 0")
    case True
    then show ?thesis by (simp add: Num numberToString_def toUpperCase_def toUpperCase_char_def)
  next
    case False
    then show ?thesis using d by (simp add: Num numberToString_def)
  qed
qed

section \<open>Texts and their parts\<close>

lemma endsWith_iff: "endsWith s p = (\<exists>xs. s = xs @ p)"
proof
  assume "endsWith s p"
  then have l: "length p \<le> length s" and d: "drop (length s - length p) s = p"
    by (simp_all add: endsWith_def)
  have "s = take (length s - length p) s @ drop (length s - length p) s" by simp
  with d have "s = take (length s - length p) s @ p" by simp
  then show "\<exists>xs. s = xs @ p" ..
next
  assume "\<exists>xs. s = xs @ p"
  then obtain xs where "s = xs @ p" ..
  then show "endsWith s p" by (simp add: endsWith_def)
qed

lemma endsWith_append: "endsWith (xs @ p) p"
  by (auto simp: endsWith_iff)

lemma endsWith_last: "endsWith s [c] = (s \<noteq> [] \<and> last s = c)"
proof
  assume "endsWith s [c]"
  then obtain xs where "s = xs @ [c]" by (auto simp: endsWith_iff)
  then show "s \<noteq> [] \<and> last s = c" by simp
next
  assume a: "s \<noteq> [] \<and> last s = c"
  then have "s = butlast s @ [c]" by (metis append_butlast_last_id)
  then show "endsWith s [c]" unfolding endsWith_iff ..
qed

lemma substring_take: "substring s 0 k = take k s"
  by (simp add: substring_def)

lemma substring_butlast: "substring (xs @ [c]) 0 (length (xs @ [c]) - 1) = xs"
  by (simp add: substring_def)

lemma indexOf_char_Some:
  "indexOf s [c] = Some k \<Longrightarrow> k < length s \<and> s ! k = c \<and> c \<notin> set (take k s)"
proof (induction s arbitrary: k)
  case Nil
  then show ?case by simp
next
  case (Cons a s)
  show ?case
  proof (cases "a = c")
    case True
    with Cons.prems show ?thesis by (simp add: startsWith_def)
  next
    case False
    with Cons.prems obtain k' where k': "indexOf s [c] = Some k'" "k = Suc k'"
      by (auto simp: startsWith_def)
    with Cons.IH have "k' < length s \<and> s ! k' = c \<and> c \<notin> set (take k' s)" by simp
    with False k' show ?thesis by simp
  qed
qed

lemma indexOf_char_found:
  "c \<notin> set xs \<Longrightarrow> indexOf (xs @ c # ys) [c] = Some (length xs)"
  by (induction xs) (auto simp: startsWith_def)

lemma indexOf_appended: "indexOf (xs @ p @ ys) p \<noteq> None"
proof (induction xs)
  case Nil
  show ?case
  proof (cases "p @ ys")
    case Nil
    then show ?thesis by simp
  next
    case (Cons a l)
    have "startsWith (a # l) p" unfolding Cons [symmetric] by (simp add: startsWith_def)
    then show ?thesis by (simp add: Cons)
  qed
next
  case (Cons a xs)
  then show ?case by simp
qed

lemma indexOf_dots_None: "CHR ''.'' \<notin> set s \<Longrightarrow> indexOf s ''..'' = None"
  by (induction s) (auto simp: startsWith_def)

lemma startsWith_Cons: "startsWith (a # l) (b # p) = (a = b \<and> startsWith l p)"
  by (simp add: startsWith_def)

lemma startsWith_Nil: "startsWith l []"
  by (simp add: startsWith_def)

lemma split_pieces_skip:
  "CHR ''.'' \<notin> set xs
     \<Longrightarrow> split_pieces ''..'' acc (xs @ rest) = split_pieces ''..'' (rev xs @ acc) rest"
proof (induction xs arbitrary: acc)
  case Nil
  show ?case by simp
next
  case (Cons a xs)
  then have a: "a \<noteq> CHR ''.''" and xs: "CHR ''.'' \<notin> set xs" by auto
  have "split_pieces ''..'' acc ((a # xs) @ rest) = split_pieces ''..'' (a # acc) (xs @ rest)"
    using a by (simp add: startsWith_Cons)
  also have "\<dots> = split_pieces ''..'' (rev xs @ a # acc) rest" using xs by (rule Cons.IH)
  finally show ?case by simp
qed

lemma split_two:
  assumes a: "CHR ''.'' \<notin> set xs" and b: "CHR ''.'' \<notin> set ys"
  shows "split (xs @ ''..'' @ ys) ''..'' 2 = [xs, ys]"
proof -
  have 1: "split_pieces ''..'' [] (xs @ ''..'' @ ys) = split_pieces ''..'' (rev xs) (''..'' @ ys)"
    using split_pieces_skip [OF a, of "[]" "''..'' @ ys"] by simp
  have 2: "split_pieces ''..'' (rev xs) (''..'' @ ys) = xs # split_pieces ''..'' [] ys"
    by (simp add: startsWith_Cons startsWith_Nil)
  have 3: "split_pieces ''..'' [] ys = [ys]"
    using split_pieces_skip [OF b, of "[]" "[]"] by simp
  show ?thesis unfolding split_def 1 2 3 by simp
qed

lemma loadArrayBounds_range_text:
  assumes a: "CHR ''.'' \<notin> set xs" and b: "CHR ''.'' \<notin> set ys"
  shows "loadArrayBounds (xs @ ''..'' @ ys)
           = new_SsRange (Some (parseInt xs))
               (if toUpperCase ys \<noteq> ''N'' then Some (parseInt ys) else None)"
proof -
  have inc: "includes_str (xs @ ''..'' @ ys) ''..'' = True"
    using indexOf_appended [of xs "''..''" ys] by (simp add: includes_str_def)
  have sp: "split (xs @ ''..'' @ ys) ''..'' 2 = [xs, ys]" using a b by (rule split_two)
  show ?thesis
    unfolding loadArrayBounds_def Let_def inc sp by (simp add: at_index_def)
qed

lemma loadArrayBounds_fixed_text:
  assumes "CHR ''.'' \<notin> set xs"
  shows "loadArrayBounds xs
           = (if lessThan_num (parseInt xs) (Num 0) then Inl InvalidArraySize
              else SsRange_fixed (parseInt xs))"
proof -
  have "includes_str xs ''..'' = False"
    using assms by (simp add: includes_str_def indexOf_dots_None)
  then show ?thesis unfolding loadArrayBounds_def Let_def by simp
qed

section \<open>Rendering a data type and parsing it again\<close>

lemma loadArrayBounds_shape:
  assumes "loadArrayBounds bs = Inr r"
  shows "\<exists>a mo. r = \<lparr>minR = Some a, maxR = mo\<rparr> \<and> new_SsRange (Some a) mo = Inr r"
proof (cases "includes_str bs ''..''")
  case True
  with assms obtain p0 p1 where
    "new_SsRange (Some (parseInt p0))
       (if toUpperCase p1 \<noteq> ''N'' then Some (parseInt p1) else None) = Inr r"
    by (auto simp: loadArrayBounds_def Let_def split: jsref.splits)
  moreover from this have
    "r = \<lparr>minR = Some (parseInt p0),
          maxR = (if toUpperCase p1 \<noteq> ''N'' then Some (parseInt p1) else None)\<rparr>"
    by (auto simp: new_SsRange_def split: if_splits option.splits)
  ultimately show ?thesis by blast
next
  case False
  with assms have n: "new_SsRange (Some (parseInt bs)) (Some (parseInt bs)) = Inr r"
    by (auto simp: loadArrayBounds_def Let_def SsRange_fixed_def split: if_splits)
  then have "r = \<lparr>minR = Some (parseInt bs), maxR = Some (parseInt bs)\<rparr>"
    by (auto simp: new_SsRange_def split: if_splits)
  with n show ?thesis by blast
qed

lemma loadArrayBounds_render:
  assumes b: "loadArrayBounds bs = Inr r"
    and nn: "\<And>n. minR r = Some (Num n) \<Longrightarrow> maxR r = Some (Num n) \<Longrightarrow> 0 \<le> n"
  shows "loadArrayBounds (arrayRangeString r) = Inr r"
proof -
  from loadArrayBounds_shape [OF b] obtain a mo
    where r: "r = \<lparr>minR = Some a, maxR = mo\<rparr>" and n: "new_SsRange (Some a) mo = Inr r"
    by blast
  show ?thesis
  proof (cases "isFixed r")
    case True
    then obtain x where x: "a = Num x" "mo = Some (Num x)"
      by (cases a; cases mo; cases "the mo") (auto simp: r isFixed_def)
    then have "0 \<le> x" using nn [of x] by (simp add: r)
    then have lt: "\<not> lessThan_num (Num x) (Num 0)" by simp
    have s: "arrayRangeString r = numberToString (Num x)"
      using True by (simp add: arrayRangeString_def r x nullableNumberToString_def)
    have "loadArrayBounds (numberToString (Num x))
            = (if lessThan_num (parseInt (numberToString (Num x))) (Num 0) then Inl InvalidArraySize
               else SsRange_fixed (parseInt (numberToString (Num x))))"
      by (rule loadArrayBounds_fixed_text) (rule numberToString_no_dot)
    then show ?thesis
      using lt n by (simp add: s parseInt_numberToString SsRange_fixed_def x)
  next
    case False
    show ?thesis
    proof (cases mo)
      case None
      have s: "arrayRangeString r = numberToString a @ ''..'' @ ''N''"
        using False by (simp add: arrayRangeString_def r None nullableNumberToString_def)
      have "loadArrayBounds (numberToString a @ ''..'' @ ''N'')
              = new_SsRange (Some (parseInt (numberToString a)))
                  (if toUpperCase ''N'' \<noteq> ''N'' then Some (parseInt ''N'') else None)"
        by (rule loadArrayBounds_range_text) (simp_all add: numberToString_no_dot)
      then show ?thesis
        unfolding s using n
        by (simp add: parseInt_numberToString None toUpperCase_def toUpperCase_char_def)
    next
      case (Some m)
      have s: "arrayRangeString r = numberToString a @ ''..'' @ numberToString m"
        using False by (simp add: arrayRangeString_def r Some nullableNumberToString_def)
      have "loadArrayBounds (numberToString a @ ''..'' @ numberToString m)
              = new_SsRange (Some (parseInt (numberToString a)))
                  (if toUpperCase (numberToString m) \<noteq> ''N''
                   then Some (parseInt (numberToString m)) else None)"
        by (rule loadArrayBounds_range_text) (simp_all add: numberToString_no_dot)
      then show ?thesis
        unfolding s using n
        by (simp add: parseInt_numberToString Some numberToString_not_N)
    qed
  qed
qed

lemma stripArray_plain:
  assumes "\<not> endsWith s '']''" and "\<not> endsWith s '']?''"
  shows "stripArray s = Inr (s, None, False)"
  using assms by (simp add: stripArray_def Let_def)

lemma stripArray_None:
  assumes "stripArray s = Inr (s2, None, an)"
  shows "s2 = s \<and> an = False \<and> \<not> endsWith s '']'' \<and> \<not> endsWith s '']?''"
proof (cases "endsWith s '']?''")
  case True
  then obtain xs where xs: "s = xs @ '']?''" by (auto simp: endsWith_iff)
  then have "substring s 0 (length s - 1) = xs @ '']''" by (simp add: substring_def)
  moreover have "endsWith (xs @ '']'') '']''" by (rule endsWith_append)
  ultimately show ?thesis
    using assms True by (auto simp: stripArray_def Let_def split: option.splits sum.splits)
next
  case False
  with assms show ?thesis
    by (auto simp: stripArray_def Let_def split: if_splits option.splits sum.splits)
qed

lemma stripArray_Some:
  assumes "stripArray s = Inr (s2, Some r, an)"
  shows "CHR ''['' \<notin> set s2 \<and> (\<exists>bs. loadArrayBounds bs = Inr r)"
proof -
  let ?s1 = "if endsWith s '']?'' then substring s 0 (length s - 1) else s"
  from assms obtain k where k: "indexOf ?s1 ''['' = Some k"
    and b: "\<exists>bs. loadArrayBounds bs = Inr r" and s2: "s2 = substring ?s1 0 k"
    by (auto simp: stripArray_def Let_def split: if_splits option.splits sum.splits)
  from indexOf_char_Some [OF k] have "CHR ''['' \<notin> set (take k ?s1)" by simp
  with s2 b show ?thesis by (simp add: substring_take)
qed

lemma stripArray_render:
  assumes nb: "CHR ''['' \<notin> set base" and b: "loadArrayBounds rs = Inr r"
  shows "stripArray (base @ ''['' @ rs @ '']'' @ (if an then ''?'' else []))
           = Inr (base, Some r, an)"
proof -
  let ?s1 = "base @ ''['' @ rs @ '']''"
  let ?s = "base @ ''['' @ rs @ '']'' @ (if an then ''?'' else [])"
  have an: "endsWith ?s '']?'' = an"
  proof (cases an)
    case True
    have "?s = (base @ ''['' @ rs) @ '']?''" using True by simp
    then have "endsWith ?s '']?''" unfolding endsWith_iff by blast
    with True show ?thesis by simp
  next
    case False
    have "\<not> endsWith ?s '']?''"
    proof
      assume "endsWith ?s '']?''"
      then obtain xs where "?s = xs @ '']?''" unfolding endsWith_iff by blast
      then have "last ?s = last (xs @ '']?'')" by (rule arg_cong)
      with False show False by simp
    qed
    with False show ?thesis by simp
  qed
  have s1: "(if an then substring ?s 0 (length ?s - 1) else ?s) = ?s1"
    by (simp add: substring_def)
  have e: "endsWith ?s1 '']'' = True"
  proof -
    have "?s1 = (base @ ''['' @ rs) @ '']''" by simp
    then show ?thesis unfolding endsWith_iff by blast
  qed
  have i: "indexOf ?s1 ''['' = Some (length base)"
    using indexOf_char_found [OF nb, of "rs @ '']''"] by simp
  have bs: "substring ?s1 (length base + 1) (length ?s1 - 1) = rs"
    by (simp add: substring_def)
  have b0: "substring ?s1 0 (length base) = base" by (simp add: substring_def)
  show ?thesis
    unfolding stripArray_def Let_def an s1 e i
    by (simp only: bs b0 b if_True option.case sum.case)
qed

lemma new_SsAttributeDataType_fields:
  assumes "new_SsAttributeDataType p v s nl ab an = Inr t"
  shows "t = \<lparr>adt_predefinedType = p, adt_valueTypeDef = v, adt_structDef = s,
              adt_nullable = nl, adt_arrayRange = ab, adt_arrayNullable = an\<rparr>"
  using assms
  by (auto simp: new_SsAttributeDataType_def split: if_splits option.splits)

text \<open>
  The canonical names that \<^verbatim>\<open>getPredefinedTypeString\<close> returns: each is looked up as the
  kind it came from and has no character that the data-type grammar gives a meaning to.
\<close>

lemma canonical_name:
  assumes "getPredefinedTypeString pt = Inr nm"
  shows "getPredefinedTypeOrNull nm = Some pt" "CHR ''['' \<notin> set nm" "nm \<noteq> []"
    "last nm \<noteq> CHR '']''" "last nm \<noteq> CHR ''?''"
  using assms
  by (cases pt; auto simp: getPredefinedTypeOrNull_def toLowerCase_def toLowerCase_char_def)+

lemma nullable_mark:
  "s2 = (if endsWith s2 ''?'' then substring s2 0 (length s2 - 1) else s2)
          @ (if endsWith s2 ''?'' then ''?'' else [])"
proof (cases "endsWith s2 ''?''")
  case True
  then obtain xs where "s2 = xs @ ''?''" unfolding endsWith_iff by blast
  then show ?thesis using True by (simp add: substring_def)
next
  case False
  then show ?thesis by simp
qed

lemma loadBaseType_canonical:
  assumes c: "getPredefinedTypeString pt = Inr nm"
  shows "loadBaseType (nm @ (if nl then ''?'' else [])) d ab an
           = new_SsAttributeDataType (Some pt) None None nl ab an"
proof -
  let ?s = "nm @ (if nl then ''?'' else [])"
  have e: "endsWith ?s ''?'' = nl"
  proof (cases nl)
    case True
    then show ?thesis by (simp add: endsWith_append)
  next
    case False
    then show ?thesis using canonical_name(3,5) [OF c] by (simp add: endsWith_last)
  qed
  have s3: "(if nl then substring ?s 0 (length ?s - 1) else ?s) = nm"
    by (simp add: substring_def)
  show ?thesis
    unfolding loadBaseType_def Let_def e s3 by (simp add: canonical_name(1) [OF c])
qed

lemma loadBaseType_cases:
  assumes l: "loadBaseType s2 d ab an = Inr t"
  defines "s3 \<equiv> (if endsWith s2 ''?'' then substring s2 0 (length s2 - 1) else s2)"
  shows "adt_nullable t = endsWith s2 ''?'' \<and> adt_arrayRange t = ab \<and> adt_arrayNullable t = an
    \<and> ((\<exists>pt. adt_predefinedType t = Some pt \<and> adt_valueTypeDef t = None \<and> adt_structDef t = None)
       \<or> (\<exists>v. adt_predefinedType t = None \<and> adt_valueTypeDef t = Some v
               \<and> getOrNull (valueTypeDefs d) s3 = Some v)
       \<or> (\<exists>sd. adt_predefinedType t = None \<and> adt_valueTypeDef t = None
               \<and> adt_structDef t = Some sd \<and> getOrNull (structDefs d) s3 = Some sd))"
proof (cases "getPredefinedTypeOrNull s3")
  case (Some pt)
  with l have "new_SsAttributeDataType (Some pt) None None (endsWith s2 ''?'') ab an = Inr t"
    by (simp add: loadBaseType_def Let_def s3_def)
  from new_SsAttributeDataType_fields [OF this] show ?thesis by simp
next
  case None
  show ?thesis
  proof (cases "getOrNull (valueTypeDefs d) s3")
    case (Some v)
    with l None
    have "new_SsAttributeDataType None (Some v) None (endsWith s2 ''?'') ab an = Inr t"
      by (simp add: loadBaseType_def Let_def s3_def)
    from new_SsAttributeDataType_fields [OF this] Some show ?thesis by simp
  next
    case N: None
    with l None obtain sd where g: "get (structDefs d) s3 = Inr sd"
      and n: "new_SsAttributeDataType None None (Some sd) (endsWith s2 ''?'') ab an = Inr t"
      by (auto simp: loadBaseType_def Let_def s3_def split: sum.splits)
    from g have "getOrNull (structDefs d) s3 = Some sd"
      by (auto simp: get_def split: option.splits)
    with new_SsAttributeDataType_fields [OF n] show ?thesis by simp
  qed
qed

text \<open>
  The base type of a data type that \<^verbatim>\<open>loadBaseType\<close> returned, rendered with the mark of
  a nullable type, is read as the same data type, and the rendering has a bracket or ends
  like an array only where the text did. In a scope in which every definition is stored
  under its own name, as the API stores it.
\<close>

lemma loadBaseType_render:
  assumes vt: "\<And>n v. getOrNull (valueTypeDefs d) n = Some v \<Longrightarrow> valueTypeDef_name v = n"
    and st: "\<And>n sd. getOrNull (structDefs d) n = Some sd \<Longrightarrow> sd_name sd = n"
    and l: "loadBaseType s2 d ab an = Inr t"
    and nb: "adt_predefinedType t \<noteq> Some Base64T"
  shows "\<exists>nm. baseTypeName t = Inr nm
    \<and> loadBaseType (nm @ (if adt_nullable t then ''?'' else [])) d ab an = Inr t
    \<and> (CHR ''['' \<notin> set s2 \<longrightarrow> CHR ''['' \<notin> set (nm @ (if adt_nullable t then ''?'' else [])))
    \<and> (\<not> endsWith s2 '']'' \<and> \<not> endsWith s2 '']?'' \<longrightarrow>
          \<not> endsWith (nm @ (if adt_nullable t then ''?'' else [])) '']''
        \<and> \<not> endsWith (nm @ (if adt_nullable t then ''?'' else [])) '']?'')"
proof -
  let ?s3 = "if endsWith s2 ''?'' then substring s2 0 (length s2 - 1) else s2"
  let ?q = "if adt_nullable t then ''?'' else []"
  note c = loadBaseType_cases [OF l]
  from c have nl: "adt_nullable t = endsWith s2 ''?''" by simp
  have s2: "s2 = ?s3 @ ?q" unfolding nl by (rule nullable_mark)
  have same: ?thesis if bn: "baseTypeName t = Inr ?s3"
  proof -
    have "loadBaseType (?s3 @ ?q) d ab an = Inr t" using l s2 by simp
    moreover have "CHR ''['' \<notin> set s2 \<longrightarrow> CHR ''['' \<notin> set (?s3 @ ?q)" using s2 by simp
    moreover have "\<not> endsWith s2 '']'' \<and> \<not> endsWith s2 '']?'' \<longrightarrow>
          \<not> endsWith (?s3 @ ?q) '']'' \<and> \<not> endsWith (?s3 @ ?q) '']?''" using s2 by simp
    ultimately show ?thesis using bn by blast
  qed
  from c consider
      (predefined) pt where "adt_predefinedType t = Some pt" "adt_valueTypeDef t = None"
        "adt_structDef t = None"
    | (valueType) v where "adt_predefinedType t = None" "adt_valueTypeDef t = Some v"
        "getOrNull (valueTypeDefs d) ?s3 = Some v"
    | (struct) sd where "adt_predefinedType t = None" "adt_valueTypeDef t = None"
        "adt_structDef t = Some sd" "getOrNull (structDefs d) ?s3 = Some sd"
    by blast
  then show ?thesis
  proof cases
    case predefined
    with nb have "pt \<noteq> Base64T" by simp
    then obtain nm where nm: "getPredefinedTypeString pt = Inr nm" by (cases pt) simp_all
    have bn: "baseTypeName t = Inr nm" by (simp add: baseTypeName_def predefined nm)
    have t: "t = \<lparr>adt_predefinedType = Some pt, adt_valueTypeDef = None, adt_structDef = None,
                 adt_nullable = adt_nullable t, adt_arrayRange = ab, adt_arrayNullable = an\<rparr>"
      using c predefined by (cases t) simp
    have ok: "new_SsAttributeDataType (Some pt) None None (adt_nullable t) ab an = Inr t"
    proof -
      from l have "\<exists>p v s n. new_SsAttributeDataType p v s n ab an = Inr t"
        by (auto simp: loadBaseType_def Let_def split: sum.splits)
      then have "\<not> (ab = None \<and> an)"
        by (auto simp: new_SsAttributeDataType_def split: if_splits)
      then have "new_SsAttributeDataType (Some pt) None None (adt_nullable t) ab an
          = Inr \<lparr>adt_predefinedType = Some pt, adt_valueTypeDef = None, adt_structDef = None,
                 adt_nullable = adt_nullable t, adt_arrayRange = ab, adt_arrayNullable = an\<rparr>"
        by (auto simp: new_SsAttributeDataType_def split: option.splits)
      with t show ?thesis by simp
    qed
    have re: "loadBaseType (nm @ ?q) d ab an = Inr t"
      using loadBaseType_canonical [OF nm, of "adt_nullable t" d ab an] ok by simp
    have c1: "CHR ''['' \<notin> set (nm @ ?q)" using canonical_name(2) [OF nm] by simp
    have c2: "\<not> endsWith (nm @ ?q) '']''"
      using canonical_name(3,4) [OF nm] by (simp add: endsWith_last)
    have c3: "\<not> endsWith (nm @ ?q) '']?''"
    proof
      assume "endsWith (nm @ ?q) '']?''"
      then obtain xs where x: "nm @ ?q = xs @ '']?''" unfolding endsWith_iff by blast
      show False
      proof (cases "adt_nullable t")
        case True
        with x have "nm @ ''?'' = (xs @ '']'') @ ''?''" by simp
        then have "nm = xs @ '']''" by (simp only: append_same_eq)
        then have "last nm = CHR '']''" by simp
        with canonical_name(4) [OF nm] show False by simp
      next
        case False
        with x have "last nm = last (xs @ '']?'')" by simp
        with canonical_name(5) [OF nm] show False by simp
      qed
    qed
    from bn re c1 c2 c3 show ?thesis by blast
  next
    case valueType
    from vt [OF valueType(3)] have "baseTypeName t = Inr ?s3"
      by (simp add: baseTypeName_def valueType)
    then show ?thesis by (rule same)
  next
    case struct
    from st [OF struct(4)] have "baseTypeName t = Inr ?s3"
      by (simp add: baseTypeName_def struct)
    then show ?thesis by (rule same)
  qed
qed

text \<open>
  The round trip of the data-type grammar, where it holds: a data type that
  \<^verbatim>\<open>loadDataType\<close> returned is rendered by \<^verbatim>\<open>toString\<close>, and the text is read as the same
  data type in the same scope, unless its base kind is \<^verbatim>\<open>Base64\<close> or its array range
  has two equal negative bounds.
\<close>

lemma data_type_roundtrip:
  assumes vt: "\<And>n v. getOrNull (valueTypeDefs d) n = Some v \<Longrightarrow> valueTypeDef_name v = n"
    and st: "\<And>n sd. getOrNull (structDefs d) n = Some sd \<Longrightarrow> sd_name sd = n"
    and l: "loadDataType s d = Inr t"
    and nb: "adt_predefinedType t \<noteq> Some Base64T"
    and nn: "\<And>r n. adt_arrayRange t = Some r \<Longrightarrow> minR r = Some (Num n)
               \<Longrightarrow> maxR r = Some (Num n) \<Longrightarrow> 0 \<le> n"
  shows "\<exists>s'. toString t = Inr s' \<and> loadDataType s' d = Inr t"
proof -
  from l obtain s2 ab an where sa: "stripArray s = Inr (s2, ab, an)"
    and lb: "loadBaseType s2 d ab an = Inr t"
    by (auto simp: loadDataType_def split: sum.splits)
  let ?q = "if adt_nullable t then ''?'' else []"
  from loadBaseType_cases [OF lb]
  have f: "adt_arrayRange t = ab" "adt_arrayNullable t = an" by simp_all
  from loadBaseType_render [OF vt st lb nb] obtain nm
    where bn: "baseTypeName t = Inr nm"
      and re: "loadBaseType (nm @ ?q) d ab an = Inr t"
      and c1: "CHR ''['' \<notin> set s2 \<longrightarrow> CHR ''['' \<notin> set (nm @ ?q)"
      and c2: "\<not> endsWith s2 '']'' \<and> \<not> endsWith s2 '']?'' \<longrightarrow>
                 \<not> endsWith (nm @ ?q) '']'' \<and> \<not> endsWith (nm @ ?q) '']?''"
    by blast
  show ?thesis
  proof (cases ab)
    case None
    from stripArray_None [OF sa [unfolded None]]
    have "s2 = s" "an = False" "\<not> endsWith s '']''" "\<not> endsWith s '']?''" by simp_all
    with c2 have p: "\<not> endsWith (nm @ ?q) '']''" "\<not> endsWith (nm @ ?q) '']?''" by simp_all
    have ts: "toString t = Inr (nm @ ?q)"
      using f None \<open>an = False\<close> by (simp add: toString_def bn Let_def)
    have "stripArray (nm @ ?q) = Inr (nm @ ?q, None, False)" using p by (rule stripArray_plain)
    then have "loadDataType (nm @ ?q) d = Inr t"
      using re None \<open>an = False\<close> by (simp add: loadDataType_def)
    with ts show ?thesis by blast
  next
    case (Some r)
    from stripArray_Some [OF sa [unfolded Some]]
    obtain bs where nbk: "CHR ''['' \<notin> set s2" and b: "loadArrayBounds bs = Inr r" by blast
    have "loadArrayBounds (arrayRangeString r) = Inr r"
      using b
    proof (rule loadArrayBounds_render)
      fix n
      assume "minR r = Some (Num n)" "maxR r = Some (Num n)"
      with nn [of r n] f Some show "0 \<le> n" by simp
    qed
    with nbk c1
    have sr: "stripArray ((nm @ ?q) @ ''['' @ arrayRangeString r @ '']'' @ (if an then ''?'' else []))
                = Inr (nm @ ?q, Some r, an)"
      by (intro stripArray_render) simp_all
    let ?s' = "(nm @ ?q) @ ''['' @ arrayRangeString r @ '']'' @ (if an then ''?'' else [])"
    have ts: "toString t = Inr ?s'"
      using f Some by (simp add: toString_def bn Let_def)
    have "loadDataType ?s' d = Inr t"
      unfolding loadDataType_def sr using re Some by simp
    with ts show ?thesis by blast
  qed
qed

text \<open>
  The lemma at work in the scope of the schema that defines the enum type \<open>Color\<close>: a
  nullable \<open>Color\<close> in an array of three.
\<close>

lemma data_type_roundtrip_example:
  "loadDataType ''Color?[3]'' (sch_definitions color_schema_value)
     = Inr \<lparr>adt_predefinedType = None,
            adt_valueTypeDef = Some (SsEnumTypeDef ''Color'' [''Red'', ''Green'', ''Blue'']),
            adt_structDef = None, adt_nullable = True,
            adt_arrayRange = Some \<lparr>minR = Some (Num 3), maxR = Some (Num 3)\<rparr>,
            adt_arrayNullable = False\<rparr>"
  "\<exists>s'. toString \<lparr>adt_predefinedType = None,
            adt_valueTypeDef = Some (SsEnumTypeDef ''Color'' [''Red'', ''Green'', ''Blue'']),
            adt_structDef = None, adt_nullable = True,
            adt_arrayRange = Some \<lparr>minR = Some (Num 3), maxR = Some (Num 3)\<rparr>,
            adt_arrayNullable = False\<rparr> = Inr s'
     \<and> loadDataType s' (sch_definitions color_schema_value)
         = Inr \<lparr>adt_predefinedType = None,
            adt_valueTypeDef = Some (SsEnumTypeDef ''Color'' [''Red'', ''Green'', ''Blue'']),
            adt_structDef = None, adt_nullable = True,
            adt_arrayRange = Some \<lparr>minR = Some (Num 3), maxR = Some (Num 3)\<rparr>,
            adt_arrayNullable = False\<rparr>"
proof -
  let ?d = "sch_definitions color_schema_value"
  let ?t = "\<lparr>adt_predefinedType = None,
            adt_valueTypeDef = Some (SsEnumTypeDef ''Color'' [''Red'', ''Green'', ''Blue'']),
            adt_structDef = None, adt_nullable = True,
            adt_arrayRange = Some \<lparr>minR = Some (Num 3), maxR = Some (Num 3)\<rparr>,
            adt_arrayNullable = False\<rparr>"
  show l: "loadDataType ''Color?[3]'' ?d = Inr ?t" by code_simp
  have vt: "valueTypeDef_name v = n" if "getOrNull (valueTypeDefs ?d) n = Some v" for n v
    using that by (auto simp: color_schema_value_def split: if_splits)
  have st: "sd_name sd = n" if "getOrNull (structDefs ?d) n = Some sd" for n sd
    using that by (simp add: color_schema_value_def)
  show "\<exists>s'. toString ?t = Inr s' \<and> loadDataType s' ?d = Inr ?t"
    using vt st l by (rule data_type_roundtrip) auto
qed

section \<open>Predefined types\<close>

lemma getPredefinedTypeOrNull_ignores_case:
  "toLowerCase s = toLowerCase s' \<Longrightarrow> getPredefinedTypeOrNull s = getPredefinedTypeOrNull s'"
  by (simp add: getPredefinedTypeOrNull_def)

text \<open>
  Rendering and then looking up is the identity on eight of the nine kinds: all but
  \<^verbatim>\<open>Base64\<close>.
\<close>

lemma predefined_type_roundtrip:
  "t \<noteq> Base64T \<Longrightarrow>
     \<exists>s. getPredefinedTypeString t = Inr s \<and> getPredefinedTypeOrNull s = Some t"
  by (cases t)
    (simp_all add: getPredefinedTypeOrNull_def toLowerCase_def toLowerCase_char_def)

text \<open>
  C7 says that each of the nine predefined kinds is found by its name in any letter-casing
  and is rendered as its canonical name. It fails on the code at \<^verbatim>\<open>Base64\<close>: the name is
  found, and \<^verbatim>\<open>getPredefinedTypeString\<close> has no case for the kind and throws
  \<^verbatim>\<open>"Invalid predefined type string"\<close>, so it returns no canonical name for it.
\<close>

theorem base64_has_no_canonical_name:
  "getPredefinedTypeOrNull ''Base64'' = Some Base64T
   \<and> getPredefinedTypeOrNull ''BASE64'' = Some Base64T
   \<and> getPredefinedTypeOrNull ''base64'' = Some Base64T
   \<and> getPredefinedTypeString Base64T = Inl InvalidPredefinedTypeString"
  by (simp add: getPredefinedTypeOrNull_def toLowerCase_def toLowerCase_char_def)

section \<open>The data-type grammar\<close>

text \<open>
  C3 says that a data type the parser accepts is rendered to a text that the parser reads
  as an equal data type. It fails on the code at the text \<^verbatim>\<open>Base64\<close>: \<^verbatim>\<open>loadDataType\<close>
  accepts it in any scope, and \<^verbatim>\<open>toString\<close> of the data type it returns throws, so there is
  no canonical text to parse again.
\<close>

theorem base64_data_type_is_not_rendered:
  "loadDataType ''Base64'' d
     = Inr \<lparr>adt_predefinedType = Some Base64T, adt_valueTypeDef = None, adt_structDef = None,
            adt_nullable = False, adt_arrayRange = None, adt_arrayNullable = False\<rparr>
   \<and> toString \<lparr>adt_predefinedType = Some Base64T, adt_valueTypeDef = None, adt_structDef = None,
                adt_nullable = False, adt_arrayRange = None, adt_arrayNullable = False\<rparr>
     = Inl InvalidPredefinedTypeString"
  by (simp add: loadDataType_def stripArray_def loadBaseType_def endsWith_def substring_def
      getPredefinedTypeOrNull_def toLowerCase_def toLowerCase_char_def
      new_SsAttributeDataType_def toString_def baseTypeName_def)

text \<open>On other texts the two functions are inverse, as on a nullable array of nullable integers.\<close>

lemma int_array_roundtrip:
  "loadDataType ''int?[2..N]?'' d
     = Inr \<lparr>adt_predefinedType = Some IntT, adt_valueTypeDef = None, adt_structDef = None,
            adt_nullable = True, adt_arrayRange = Some \<lparr>minR = Some (Num 2), maxR = None\<rparr>,
            adt_arrayNullable = True\<rparr>"
  "toString \<lparr>adt_predefinedType = Some IntT, adt_valueTypeDef = None, adt_structDef = None,
            adt_nullable = True, adt_arrayRange = Some \<lparr>minR = Some (Num 2), maxR = None\<rparr>,
            adt_arrayNullable = True\<rparr> = Inr ''Int?[2..N]?''"
  "loadDataType ''Int?[2..N]?'' d = loadDataType ''int?[2..N]?'' d"
  by code_simp+

text \<open>
  A second text that does not survive: a range with equal negative bounds is accepted and
  rendered as a fixed size, which the fixed-size branch of the parser refuses.
\<close>

lemma negative_range_is_not_reparsed:
  "loadDataType ''Int[-3..-3]'' d
     = Inr \<lparr>adt_predefinedType = Some IntT, adt_valueTypeDef = None, adt_structDef = None,
            adt_nullable = False,
            adt_arrayRange = Some \<lparr>minR = Some (Num (- 3)), maxR = Some (Num (- 3))\<rparr>,
            adt_arrayNullable = False\<rparr>"
  "toString \<lparr>adt_predefinedType = Some IntT, adt_valueTypeDef = None, adt_structDef = None,
            adt_nullable = False,
            adt_arrayRange = Some \<lparr>minR = Some (Num (- 3)), maxR = Some (Num (- 3))\<rparr>,
            adt_arrayNullable = False\<rparr> = Inr ''Int[-3]''"
  "loadDataType ''Int[-3]'' d = Inl InvalidArraySize"
  by code_simp+

section \<open>The root element\<close>

lemma setRootElementByName_cases:
  "setRootElementByName s n =
     (case getOrNull (elementDefs (sch_definitions s)) n of
        None \<Rightarrow> Inl (NotDefined (typeDescription (elementDefs (sch_definitions s))) n
                      (selfDescription (elementDefs (sch_definitions s))))
      | Some item \<Rightarrow> Inr (s\<lparr>sch_rootElement := Ref (ed_name item)\<rparr>))"
  by (simp add: setRootElementByName_def get_def split: option.splits)

lemma setRootElementDefault_cases:
  "setRootElementDefault s =
     (case values_of (elementDefs (sch_definitions s)) of
        [] \<Rightarrow> Inr (s\<lparr>sch_rootElement := Undefined\<rparr>)
      | [item] \<Rightarrow> Inr (s\<lparr>sch_rootElement := Ref (ed_name item)\<rparr>)
      | _ \<Rightarrow> Inl MultipleRootElementDefs)"
  by (simp add: setRootElementDefault_def at_index_def split: list.splits)

text \<open>
  The loader accepts the schema of the specification's example, and \<open>Person\<close>, which the
  document names, is the root element.
\<close>

lemma parse_person_document: "parse person_document = Inr person_schema"
  by code_simp

text \<open>
  The loader follows the scope chain: in the nested document the entry \<open>Id\<close> of \<open>Person\<close>
  and that of \<open>Child\<close> both resolve to the attribute that \<open>Person\<close> defines, not to the
  one of the schema, and \<open>Child\<close> finds itself and \<open>Person\<close>.
\<close>

lemma parse_nested_document:
  "map_sum id sch_rootElement (parse nested_document) = Inr (Ref ''Person'')"
  "map_sum id nested_id_types (parse nested_document) = Inr [Inr ''String?'', Inr ''String?'']"
  by code_simp+

text \<open>
  C2 says that loading fails when the document names no root element and defines no
  element at the top. It fails on the code at the document without definitions. \<^verbatim>\<open>setRootElementDefault\<close> reads \<^verbatim>\<open>values[0]\<close> of an empty
  array, \<^verbatim>\<open>parse\<close> returns a schema whose root element is \<^verbatim>\<open>undefined\<close>, and
  \<^verbatim>\<open>getRootElement\<close>, which guards against \<^verbatim>\<open>null\<close> only, returns \<^verbatim>\<open>undefined\<close> too.
\<close>

theorem empty_schema_loads_with_undefined_root:
  "parse empty_document
     = Inr \<lparr>sch_definitions = new_SsDefinitions None None, sch_rootElement = Undefined\<rparr>
   \<and> getRootElement \<lparr>sch_definitions = new_SsDefinitions None None, sch_rootElement = Undefined\<rparr>
     = Inr Undefined"
  by code_simp

section \<open>The round trip through the serializer\<close>

text \<open>
  C1 says that a schema built through the API, serialized and loaded again, is the same
  schema. It fails on the code at the schema that defines the enum type \<open>Color\<close> and nothing
  else. The serializer names the node \<^verbatim>\<open>EnumTypeDef\<close>, the loader reads nodes named
  \<^verbatim>\<open>EnumType\<close>: the loader rejects the document, and its \<^verbatim>\<open>loadDefinitions\<close> would find
  no definition in it.
\<close>

theorem serialized_enum_schema_does_not_load:
  "color_schema = Inr color_schema_value
   \<and> serialize color_schema_value = Inr color_document
   \<and> parse color_document = Inl (CouldNotParseSchema (SmlError ''not allowed element''))
   \<and> roundTrip color_schema_value = Inl (CouldNotParseSchema (SmlError ''not allowed element''))
   \<and> loadDefinitions color_document (sch_definitions new_SmlSchema)
       = Inr (sch_definitions new_SmlSchema)"
  by code_simp

text \<open>
  The same happens to a schema that the loader has built: the document serialized from
  the schema of \<open>Person\<close> has a node \<^verbatim>\<open>ElementDef\<close>, with the attribute entries on the
  node itself and not in a node \<^verbatim>\<open>UnorderedContent\<close>.
\<close>

lemma serialized_person_schema_does_not_load:
  "serialize person_schema
     = Inr (SmlElement ''Schema''
         [ElementNode
            (SmlElement ''ElementDef''
               [AttributeNode \<lparr>at_name = ''Name'', at_values = [''Person'']\<rparr>,
                AttributeNode \<lparr>at_name = ''Attribute'',
                               at_values = [''Name'', ''Required'', ''String'']\<rparr>,
                AttributeNode \<lparr>at_name = ''Attribute'',
                               at_values = [''Age'', ''Optional'', ''Int'']\<rparr>])])"
  "roundTrip person_schema = Inl (CouldNotParseSchema (SmlError ''not allowed element''))"
  by code_simp+

end
